theory Spec2Isabelle
  imports Main "HOL-Library.Word"
begin

unbundle bit_operations_syntax

section \<open>The fetch applet of apk-tools (src/fetch.c)\<close>

text \<open>
  The applet is a C program that works through the operating system, the package database,
  the dependency solver and the stream layer. The embedding makes all of that explicit:
  \<^item> the file system is a map from path names to nodes, and every call that leaves the
    applet is appended to a trace, in program order, with its result;
  \<^item> the answers of the collaborators that are not part of \<^verbatim>\<open>fetch.c\<close> (stream open and
    splice, the solver, the database, the version comparison, the reasons for which
    \<^verbatim>\<open>creat\<close> and \<^verbatim>\<open>link\<close> can be refused) are fields of an environment record; they may
    depend on the whole world, trace included, so that the same call can answer
    differently at different times;
  \<^item> C's \<^verbatim>\<open>int\<close> results are \<open>int\<close>, sizes are \<open>nat\<close>, the flag words and the repository
    bit mask are \<open>32 word\<close>. The result of the splice is reduced to 32 bits when it is
    stored in \<^verbatim>\<open>int r\<close>. \<^verbatim>\<open>pkg->size\<close> is declared in a header that is not part of the
    source tree; it is taken to be a \<^verbatim>\<open>size_t\<close> of 64 bits, so that \<^verbatim>\<open>r != pkg->size\<close>
    converts \<^verbatim>\<open>r\<close> to 64 bits and, for every size a file can have, compares the two as
    numbers.
  The names that are hard links to one file are kept in groups, and a write through one
  name shows under the others. What the file map leaves out: a path is a name and nothing
  more (two spellings of one file are two names), and there are no directories and no
  permissions; instead \<^verbatim>\<open>creat\<close>, \<^verbatim>\<open>link\<close> and \<^verbatim>\<open>unlink\<close> can each be refused by the
  environment.
\<close>

subsection \<open>Data\<close>

text \<open>A directory entry: a regular file of a given size, or a symbolic link to a path.\<close>

datatype node = Reg nat | Symlink string

type_synonym fs = "string \<Rightarrow> node option"

text \<open>
  The \<^verbatim>\<open>int fd\<close> of \<^verbatim>\<open>fetch_package\<close>: standard output, or a descriptor that \<^verbatim>\<open>creat\<close>
  opened on the regular file at a path. (Standard output is open while the applet runs,
  so \<^verbatim>\<open>creat\<close> never returns \<^verbatim>\<open>STDOUT_FILENO\<close> itself.)
\<close>

datatype fd = STDOUT_FILENO | Fd string

datatype event =
    Ev_message string
  | Ev_error string
  | Ev_lstat string
  | Ev_readlink string
  | Ev_link string string bool
  | Ev_creat string bool
  | Ev_close fd
  | Ev_unlink string
  | Ev_istream_from_url string bool
  | Ev_splice string fd nat int
  | Ev_istream_close string
  | Ev_db_open int
  | Ev_db_get_name string
  | Ev_db_close
  | Ev_state_new
  | Ev_state_lock_dependency string int
  | Ev_state_unref

text \<open>
  The world: the file map, the groups of names that are hard links to one file (a name in
  no group has its file to itself), and the calls made so far.
\<close>

record world =
  files :: fs
  links :: "string list list"
  trace :: "event list"

text \<open>
  \<^verbatim>\<open>struct apk_package\<close>, as far as \<^verbatim>\<open>fetch.c\<close> reads it: \<^verbatim>\<open>pkg->name->name\<close>,
  \<^verbatim>\<open>pkg->version\<close>, \<^verbatim>\<open>pkg->size\<close> and the bit mask \<^verbatim>\<open>pkg->repos\<close>.
\<close>

record apk_package =
  pkg_name :: string
  version :: string
  pkg_size :: nat
  pkg_repos :: "32 word"

text \<open>\<^verbatim>\<open>struct apk_name\<close>: the name and the array \<^verbatim>\<open>pkgs\<close>, which is \<^verbatim>\<open>NULL\<close> or an array.\<close>

record apk_name =
  name :: string
  pkgs :: "apk_package list option"

text \<open>
  \<^verbatim>\<open>struct apk_database\<close>: the URL of each repository slot (\<^verbatim>\<open>db->repos[i].url\<close>) and the
  name table that \<^verbatim>\<open>apk_db_get_name\<close> looks up.
\<close>

record apk_database =
  db_repos_url :: "nat \<Rightarrow> string"
  db_names :: "string \<Rightarrow> apk_name"

record fetch_ctx =
  flags :: "32 word"
  outdir :: "string option"

text \<open>
  The results of \<^verbatim>\<open>apk_pkg_version_compare\<close>; \<^verbatim>\<open>fetch.c\<close> only asks whether the result is
  \<^verbatim>\<open>APK_VERSION_GREATER\<close>.
\<close>

datatype version_result = APK_VERSION_LESS | APK_VERSION_EQUAL | APK_VERSION_GREATER

text \<open>
  What \<^verbatim>\<open>fetch.c\<close> takes from outside. \<open>APK_MAX_REPOS\<close> is the constant of the absent
  header; \<open>apk_simulate\<close> is the test \<^verbatim>\<open>apk_flags & APK_SIMULATE\<close> on the global flag word.
  \<open>creat_error\<close> gives the \<^verbatim>\<open>strerror\<close> text when \<^verbatim>\<open>creat\<close> fails on a path, \<open>link_refused\<close>
  says that \<^verbatim>\<open>link\<close> fails for a reason the file map does not show (another device, no
  permission), \<open>unlink_refused\<close> the same for \<^verbatim>\<open>unlink\<close> (a directory that cannot be written).
  \<open>uninit_outfile\<close> and \<open>uninit_real_infile\<close> are what the two stack buffers
  hold, read as C strings, on the paths where the code uses them without having filled
  them (\<^verbatim>\<open>outfile\<close> in stdout mode, \<^verbatim>\<open>real_infile\<close> when \<^verbatim>\<open>readlink\<close> gave nothing usable).
\<close>

record env =
  APK_MAX_REPOS :: nat
  apk_simulate :: bool
  apk_url_local_file :: "string \<Rightarrow> bool"
  creat_error :: "world \<Rightarrow> string \<Rightarrow> string option"
  link_refused :: "world \<Rightarrow> string \<Rightarrow> string \<Rightarrow> bool"
  unlink_refused :: "world \<Rightarrow> string \<Rightarrow> bool"
  apk_istream_from_url :: "world \<Rightarrow> string \<Rightarrow> bool"
  apk_istream_splice :: "world \<Rightarrow> string \<Rightarrow> nat \<Rightarrow> int"
  uninit_outfile :: "world \<Rightarrow> string"
  uninit_real_infile :: "world \<Rightarrow> string"
  apk_pkg_version_compare :: "apk_package \<Rightarrow> apk_package \<Rightarrow> version_result"
  apk_db_open :: "world \<Rightarrow> int \<times> apk_database"
  apk_state_lock_dependency :: "world \<Rightarrow> apk_database \<Rightarrow> apk_name \<Rightarrow> int \<times> apk_package list"

definition FETCH_RECURSIVE :: "32 word" where
  "FETCH_RECURSIVE = 1"

definition FETCH_STDOUT :: "32 word" where
  "FETCH_STDOUT = 2"

definition FETCH_LINK :: "32 word" where
  "FETCH_LINK = 4"

text \<open>
  Modelled from the spec: the macro \<^verbatim>\<open>BIT\<close> of the absent headers. The spec describes
  \<^verbatim>\<open>pkg->repos\<close> as a bit mask in which bit \<open>i\<close> says that repository \<open>i\<close> carries the
  package, so \<open>BIT i\<close> is the word with only bit \<open>i\<close> set.
\<close>

definition BIT :: "nat \<Rightarrow> 32 word" where
  "BIT i = push_bit i 1"

subsection \<open>The calls that leave the applet\<close>

definition emit :: "event \<Rightarrow> world \<Rightarrow> world" where
  "emit ev w = w\<lparr>trace := trace w @ [ev]\<rparr>"

definition new_events :: "world \<Rightarrow> world \<Rightarrow> event list" where
  "new_events w w' = drop (length (trace w)) (trace w')"

text \<open>\<^verbatim>\<open>snprintf(buf, n, ...)\<close> keeps at most \<open>n - 1\<close> bytes of the formatted text.\<close>

definition snprintf :: "nat \<Rightarrow> string \<Rightarrow> string" where
  "snprintf n s = take (n - 1) s"

definition quoted :: "string \<Rightarrow> string" where
  "quoted s = [CHR 0x27] @ s @ [CHR 0x27]"

fun st_size :: "node \<Rightarrow> nat" where
  "st_size (Reg n) = n"
| "st_size (Symlink t) = length t"

text \<open>\<^verbatim>\<open>lstat\<close> does not follow a symbolic link; \<open>None\<close> is the result \<open>-1\<close>.\<close>

definition sys_lstat :: "string \<Rightarrow> world \<Rightarrow> nat option \<times> world" where
  "sys_lstat p w = (map_option st_size (files w p), emit (Ev_lstat p) w)"

text \<open>
  \<^verbatim>\<open>readlink(p, buf, 256)\<close>: the number of bytes put into the buffer, at most 256 of the
  link's target, or \<open>-1\<close> when \<open>p\<close> is not a symbolic link. No terminator is written.
\<close>

definition sys_readlink :: "string \<Rightarrow> nat \<Rightarrow> world \<Rightarrow> (int \<times> string) \<times> world" where
  "sys_readlink p bufsize w =
     ((case files w p of
         Some (Symlink t) \<Rightarrow> (int (min (length t) bufsize), take bufsize t)
       | _ \<Rightarrow> (-1, [])),
      emit (Ev_readlink p) w)"

text \<open>
  Hard links. \<open>names_of w q\<close> are the names under which the regular file at \<open>q\<close> is
  reachable, \<open>q\<close> first; \<open>write_file w q n\<close> is the file map after that file has got the size
  \<open>n\<close> (for a \<open>q\<close> that does not exist, after it has been made). \<open>drop_name\<close> takes a name
  out of every group, \<open>join_name\<close> puts a new name into the group of an old one.
\<close>

fun is_reg :: "node option \<Rightarrow> bool" where
  "is_reg (Some (Reg n)) = True"
| "is_reg _ = False"

definition names_of :: "world \<Rightarrow> string \<Rightarrow> string list" where
  "names_of w q =
     (if is_reg (files w q)
      then q # filter (\<lambda>p. p \<noteq> q \<and> is_reg (files w p))
                 (concat (filter (\<lambda>c. q \<in> set c) (links w)))
      else [q])"

definition write_file :: "world \<Rightarrow> string \<Rightarrow> nat \<Rightarrow> fs" where
  "write_file w q n = foldr (\<lambda>p f. f(p \<mapsto> Reg n)) (names_of w q) (files w)"

definition drop_name :: "string \<Rightarrow> string list list \<Rightarrow> string list list" where
  "drop_name p ls = map (removeAll p) ls"

definition join_name :: "string \<Rightarrow> string \<Rightarrow> string list list \<Rightarrow> string list list" where
  "join_name old new ls =
     (if old \<in> set (concat ls)
      then map (\<lambda>c. if old \<in> set c then new # c else c) ls
      else [old, new] # ls)"

text \<open>
  \<^verbatim>\<open>link(old, new)\<close> gives the node at \<open>old\<close> a second name; \<^verbatim>\<open>link\<close> does not follow a
  symbolic link at \<open>old\<close>. It fails when \<open>old\<close> does not exist, when \<open>new\<close> exists already,
  or when the system refuses.
\<close>

definition sys_link :: "env \<Rightarrow> string \<Rightarrow> string \<Rightarrow> world \<Rightarrow> bool \<times> world" where
  "sys_link e old new w =
     (case files w old of
        None \<Rightarrow> (False, emit (Ev_link old new False) w)
      | Some n \<Rightarrow>
          if files w new \<noteq> None \<or> link_refused e w old new
          then (False, emit (Ev_link old new False) w)
          else (True,
                emit (Ev_link old new True)
                  (w\<lparr>files := (files w)(new \<mapsto> n),
                     links := (if is_reg (Some n)
                               then join_name old new (drop_name new (links w))
                               else drop_name new (links w))\<rparr>)))"

text \<open>
  Opening a path for writing follows symbolic links to the entry that is created or
  truncated. \<open>follow k\<close> gives up at the \<open>k\<close>-th link; the system follows at most 40 of them.
\<close>

fun follow :: "nat \<Rightarrow> fs \<Rightarrow> string \<Rightarrow> string option" where
  "follow 0 f p = None"
| "follow (Suc k) f p =
     (case f p of Some (Symlink t) \<Rightarrow> follow k f t | _ \<Rightarrow> Some p)"

text \<open>
  \<^verbatim>\<open>creat(p, 0644)\<close>: on success the file that \<open>p\<close> leads to exists and is empty, and the
  descriptor is open on it; \<open>Inl\<close> is the result \<open>-1\<close>, with the text of \<^verbatim>\<open>strerror(errno)\<close>.
\<close>

definition sys_creat :: "env \<Rightarrow> string \<Rightarrow> world \<Rightarrow> (string + fd) \<times> world" where
  "sys_creat e p w =
     (case creat_error e w p of
        Some msg \<Rightarrow> (Inl msg, emit (Ev_creat p False) w)
      | None \<Rightarrow>
          (case follow 41 (files w) p of
             None \<Rightarrow> (Inl ''Too many levels of symbolic links'', emit (Ev_creat p False) w)
           | Some q \<Rightarrow>
               (Inr (Fd q),
                emit (Ev_creat p True)
                  (w\<lparr>files := write_file w q 0,
                     links := (if files w q = None then drop_name q (links w)
                               else links w)\<rparr>))))"

definition sys_close :: "fd \<Rightarrow> world \<Rightarrow> world" where
  "sys_close d w = emit (Ev_close d) w"

text \<open>
  \<^verbatim>\<open>unlink(p)\<close> removes the entry at \<open>p\<close> itself, unless the system refuses; then nothing
  changes. The code does not read its result.
\<close>

definition sys_unlink :: "env \<Rightarrow> string \<Rightarrow> world \<Rightarrow> world" where
  "sys_unlink e p w =
     emit (Ev_unlink p)
       (if unlink_refused e w p then w
        else w\<lparr>files := (files w)(p := None), links := drop_name p (links w)\<rparr>)"

text \<open>
  Modelled from the spec: \<^verbatim>\<open>apk_istream_splice\<close> is not part of \<^verbatim>\<open>fetch.c\<close>. By sections 4.3
  and 6 of the spec it copies bytes from the stream to the descriptor, up to the number
  it is given (the declared size), and returns the number of bytes copied. The spec names
  no error result; a negative answer of the environment stands for a copy that failed and
  is the result \<open>-1\<close>. \<open>splice_result\<close> brings the answer of the environment into that
  range. The bytes reported as copied are in the file behind the descriptor afterwards
  (after a failure the file is as \<^verbatim>\<open>creat\<close> left it); standard output is not part of the
  file map.
\<close>

definition splice_result :: "int \<Rightarrow> nat \<Rightarrow> int" where
  "splice_result x n = (if x < 0 then -1 else min x (int n))"

fun splice_written :: "fd \<Rightarrow> int \<Rightarrow> world \<Rightarrow> fs" where
  "splice_written STDOUT_FILENO c w = files w"
| "splice_written (Fd q) c w = write_file w q (nat c)"

text \<open>
  Line 116 stores the result of the splice in \<^verbatim>\<open>int r\<close>: the value is reduced to 32 bits,
  two's complement.
\<close>

definition to_int32 :: "int \<Rightarrow> int" where
  "to_int32 x = (x + 2147483648) mod 4294967296 - 2147483648"

subsection \<open>\<^verbatim>\<open>fetch_package\<close>\<close>

text \<open>Lines 66-68 and 88-89: the two path buffers of 256 bytes.\<close>

definition outfile_path :: "fetch_ctx \<Rightarrow> apk_package \<Rightarrow> string" where
  "outfile_path fctx pkg =
     snprintf 256 ((case outdir fctx of Some d \<Rightarrow> d | None \<Rightarrow> ''.'') @ ''/'' @
                   pkg_name pkg @ ''-'' @ version pkg @ ''.apk'')"

definition infile_path :: "apk_database \<Rightarrow> apk_package \<Rightarrow> nat \<Rightarrow> string" where
  "infile_path db pkg i =
     snprintf 256 (db_repos_url db i @ ''/'' @ pkg_name pkg @ ''-'' @ version pkg @ ''.apk'')"

text \<open>The texts of lines 73, 80, 105, 112 and 121, with their arguments filled in.\<close>

definition pkg_label :: "apk_package \<Rightarrow> string" where
  "pkg_label pkg = pkg_name pkg @ ''-'' @ version pkg"

definition Downloading :: "apk_package \<Rightarrow> event" where
  "Downloading pkg = Ev_message (''Downloading '' @ pkg_label pkg)"

definition Not_present :: "apk_package \<Rightarrow> event" where
  "Not_present pkg = Ev_error (pkg_label pkg @ '': not present in any repository'')"

definition Creat_failed :: "string \<Rightarrow> string \<Rightarrow> event" where
  "Creat_failed outfile msg = Ev_error (outfile @ '': '' @ msg)"

definition Unable_to_download :: "string \<Rightarrow> event" where
  "Unable_to_download infile = Ev_error (''Unable to download '' @ quoted infile)"

text \<open>Lines 75-77: the loop over the repository slots, started at \<open>i\<close>.\<close>

function find_repo :: "nat \<Rightarrow> 32 word \<Rightarrow> nat \<Rightarrow> nat" where
  "find_repo maxr repos i =
     (if i < maxr then (if repos AND BIT i \<noteq> 0 then i else find_repo maxr repos (i + 1))
      else i)"
  by pat_completeness auto
termination
  by (relation "measure (\<lambda>(maxr, repos, i). maxr - i)") auto

declare find_repo.simps [simp del]

text \<open>
  Lines 110-126: the stream is opened, spliced into the descriptor and closed; the result
  of the splice, as \<^verbatim>\<open>int r\<close> holds it, is compared with the declared size. The event of
  the splice carries the number that the call returned.
\<close>

definition fetch_stream ::
  "env \<Rightarrow> apk_package \<Rightarrow> string \<Rightarrow> string \<Rightarrow> fd \<Rightarrow> world \<Rightarrow> int \<times> world" where
  "fetch_stream e pkg infile outfile d w =
     (let opened = apk_istream_from_url e w infile;
          w1 = emit (Ev_istream_from_url infile opened) w
      in if \<not> opened
         then (-1, emit (Unable_to_download infile) w1)
         else
           (let c = splice_result (apk_istream_splice e w1 infile (pkg_size pkg))
                      (pkg_size pkg);
                r = to_int32 c;
                w2 = emit (Ev_splice infile d (pkg_size pkg) c)
                       (w1\<lparr>files := splice_written d c w1\<rparr>);
                w3 = emit (Ev_istream_close infile) w2;
                w4 = (if d \<noteq> STDOUT_FILENO then sys_close d w3 else w3)
            in if r \<noteq> int (pkg_size pkg)
               then (-1, sys_unlink e outfile (emit (Unable_to_download infile) w4))
               else (0, w4)))"

text \<open>
  Lines 91-108: the descriptor to write to. In file mode the hard link is tried first when
  \<^verbatim>\<open>FETCH_LINK\<close> is set and the source is local; \<open>Inl r\<close> is a \<^verbatim>\<open>return r\<close> of
  \<^verbatim>\<open>fetch_package\<close> from inside this part.
\<close>

definition fetch_link :: "env \<Rightarrow> string \<Rightarrow> string \<Rightarrow> world \<Rightarrow> bool \<times> world" where
  "fetch_link e infile outfile w =
     (case sys_readlink infile 256 w of
        ((n, buf), w1) \<Rightarrow>
          (let real_infile = (if n > 0 \<and> n < 256 then buf else uninit_real_infile e w1)
           in sys_link e real_infile outfile w1))"

definition fetch_open_dest ::
  "env \<Rightarrow> fetch_ctx \<Rightarrow> string \<Rightarrow> string \<Rightarrow> world \<Rightarrow> (int + fd) \<times> world" where
  "fetch_open_dest e fctx infile outfile w =
     (if flags fctx AND FETCH_STDOUT \<noteq> 0 then (Inr STDOUT_FILENO, w)
      else
        (case (if flags fctx AND FETCH_LINK \<noteq> 0 \<and> apk_url_local_file e infile
               then fetch_link e infile outfile w else (False, w)) of
           (True, w1) \<Rightarrow> (Inl 0, w1)
         | (False, w1) \<Rightarrow>
             (case sys_creat e outfile w1 of
                (Inl msg, w2) \<Rightarrow> (Inl (-1), emit (Creat_failed outfile msg) w2)
              | (Inr d, w2) \<Rightarrow> (Inr d, w2))))"

text \<open>Lines 73-126: everything after the check for a file that is there already.\<close>

definition fetch_download ::
  "env \<Rightarrow> fetch_ctx \<Rightarrow> apk_database \<Rightarrow> apk_package \<Rightarrow> string \<Rightarrow> world \<Rightarrow> int \<times> world" where
  "fetch_download e fctx db pkg outfile w =
     (let w1 = emit (Downloading pkg) w;
          i = find_repo (APK_MAX_REPOS e) (pkg_repos pkg) 0
      in if i \<ge> APK_MAX_REPOS e
         then (-1, emit (Not_present pkg) w1)
         else if apk_simulate e then (0, w1)
         else
           (let infile = infile_path db pkg i
            in case fetch_open_dest e fctx infile outfile w1 of
                 (Inl r, w2) \<Rightarrow> (r, w2)
               | (Inr d, w2) \<Rightarrow> fetch_stream e pkg infile outfile d w2))"

text \<open>
  Lines 63-72, then the rest. In stdout mode \<^verbatim>\<open>outfile\<close> is never written, and the
  \<^verbatim>\<open>unlink\<close> of line 122 reads the buffer as it is.
\<close>

definition fetch_package ::
  "env \<Rightarrow> fetch_ctx \<Rightarrow> apk_database \<Rightarrow> apk_package \<Rightarrow> world \<Rightarrow> int \<times> world" where
  "fetch_package e fctx db pkg w =
     (if flags fctx AND FETCH_STDOUT = 0
      then
        (case sys_lstat (outfile_path fctx pkg) w of
           (st, w1) \<Rightarrow>
             if st = Some (pkg_size pkg) then (0, w1)
             else fetch_download e fctx db pkg (outfile_path fctx pkg) w1)
      else fetch_download e fctx db pkg (uninit_outfile e w) w)"

subsection \<open>The paths through \<^verbatim>\<open>fetch_package\<close>\<close>

text \<open>
  Every run of lines 73-126 takes one of ten paths. Each rule below is one path: the
  conditions under which it is taken, the value returned, the calls made, in order, and
  what is known of the file map it leaves (what a write does to the other names of a
  file is left open). \<open>link_events\<close> is the part of the trace that a hard link which was
  tried and failed leaves behind (nothing when it was not tried).
\<close>

definition link_events :: "string \<Rightarrow> string \<Rightarrow> string option \<Rightarrow> event list" where
  "link_events infile outfile a =
     (case a of None \<Rightarrow> [] | Some src \<Rightarrow> [Ev_readlink infile, Ev_link src outfile False])"

abbreviation repo_index :: "env \<Rightarrow> apk_package \<Rightarrow> nat" where
  "repo_index e pkg \<equiv> find_repo (APK_MAX_REPOS e) (pkg_repos pkg) 0"

inductive download_path ::
  "env \<Rightarrow> fetch_ctx \<Rightarrow> apk_database \<Rightarrow> apk_package \<Rightarrow> string \<Rightarrow> fs \<Rightarrow>
   int \<Rightarrow> event list \<Rightarrow> fs \<Rightarrow> bool"
  for e fctx db pkg outfile f
where
  no_repository:
    "APK_MAX_REPOS e \<le> repo_index e pkg \<Longrightarrow>
     download_path e fctx db pkg outfile f (-1)
       [Downloading pkg, Not_present pkg] f"
| simulated:
    "repo_index e pkg < APK_MAX_REPOS e \<Longrightarrow> apk_simulate e \<Longrightarrow>
     download_path e fctx db pkg outfile f 0 [Downloading pkg] f"
| linked:
    "repo_index e pkg < APK_MAX_REPOS e \<Longrightarrow> \<not> apk_simulate e \<Longrightarrow>
     flags fctx AND FETCH_STDOUT = 0 \<Longrightarrow> flags fctx AND FETCH_LINK \<noteq> 0 \<Longrightarrow>
     infile = infile_path db pkg (repo_index e pkg) \<Longrightarrow> apk_url_local_file e infile \<Longrightarrow>
     (\<forall>t. f infile = Some (Symlink t) \<and> 0 < length t \<and> length t < 256 \<longrightarrow> src = t) \<Longrightarrow>
     f outfile = None \<Longrightarrow> f src = Some n \<Longrightarrow>
     download_path e fctx db pkg outfile f 0
       [Downloading pkg, Ev_readlink infile, Ev_link src outfile True] (f(outfile \<mapsto> n))"
| creat_failed:
    "repo_index e pkg < APK_MAX_REPOS e \<Longrightarrow> \<not> apk_simulate e \<Longrightarrow>
     flags fctx AND FETCH_STDOUT = 0 \<Longrightarrow>
     infile = infile_path db pkg (repo_index e pkg) \<Longrightarrow>
     download_path e fctx db pkg outfile f (-1)
       (Downloading pkg # link_events infile outfile a
          @ [Ev_creat outfile False, Creat_failed outfile msg]) f"
| file_open_failed:
    "repo_index e pkg < APK_MAX_REPOS e \<Longrightarrow> \<not> apk_simulate e \<Longrightarrow>
     flags fctx AND FETCH_STDOUT = 0 \<Longrightarrow>
     infile = infile_path db pkg (repo_index e pkg) \<Longrightarrow>
     follow 41 f outfile = Some q \<Longrightarrow> f' q = Some (Reg 0) \<Longrightarrow>
     download_path e fctx db pkg outfile f (-1)
       (Downloading pkg # link_events infile outfile a
          @ [Ev_creat outfile True, Ev_istream_from_url infile False, Unable_to_download infile])
       f'"
| file_short:
    "repo_index e pkg < APK_MAX_REPOS e \<Longrightarrow> \<not> apk_simulate e \<Longrightarrow>
     flags fctx AND FETCH_STDOUT = 0 \<Longrightarrow>
     infile = infile_path db pkg (repo_index e pkg) \<Longrightarrow>
     follow 41 f outfile = Some q \<Longrightarrow>
     c = -1 \<or> (0 \<le> c \<and> c \<le> int (pkg_size pkg)) \<Longrightarrow>
     to_int32 c \<noteq> int (pkg_size pkg) \<Longrightarrow>
     (\<exists>v. unlink_refused e v outfile) \<or> f' outfile = None \<Longrightarrow>
     download_path e fctx db pkg outfile f (-1)
       (Downloading pkg # link_events infile outfile a
          @ [Ev_creat outfile True, Ev_istream_from_url infile True,
             Ev_splice infile (Fd q) (pkg_size pkg) c, Ev_istream_close infile,
             Ev_close (Fd q), Unable_to_download infile, Ev_unlink outfile])
       f'"
| file_complete:
    "repo_index e pkg < APK_MAX_REPOS e \<Longrightarrow> \<not> apk_simulate e \<Longrightarrow>
     flags fctx AND FETCH_STDOUT = 0 \<Longrightarrow>
     infile = infile_path db pkg (repo_index e pkg) \<Longrightarrow>
     follow 41 f outfile = Some q \<Longrightarrow> int (pkg_size pkg) < 2147483648 \<Longrightarrow>
     f' q = Some (Reg (pkg_size pkg)) \<Longrightarrow>
     download_path e fctx db pkg outfile f 0
       (Downloading pkg # link_events infile outfile a
          @ [Ev_creat outfile True, Ev_istream_from_url infile True,
             Ev_splice infile (Fd q) (pkg_size pkg) (int (pkg_size pkg)),
             Ev_istream_close infile, Ev_close (Fd q)])
       f'"
| stdout_open_failed:
    "repo_index e pkg < APK_MAX_REPOS e \<Longrightarrow> \<not> apk_simulate e \<Longrightarrow>
     flags fctx AND FETCH_STDOUT \<noteq> 0 \<Longrightarrow>
     infile = infile_path db pkg (repo_index e pkg) \<Longrightarrow>
     download_path e fctx db pkg outfile f (-1)
       [Downloading pkg, Ev_istream_from_url infile False, Unable_to_download infile] f"
| stdout_short:
    "repo_index e pkg < APK_MAX_REPOS e \<Longrightarrow> \<not> apk_simulate e \<Longrightarrow>
     flags fctx AND FETCH_STDOUT \<noteq> 0 \<Longrightarrow>
     infile = infile_path db pkg (repo_index e pkg) \<Longrightarrow>
     c = -1 \<or> (0 \<le> c \<and> c \<le> int (pkg_size pkg)) \<Longrightarrow>
     to_int32 c \<noteq> int (pkg_size pkg) \<Longrightarrow>
     ((\<exists>v. unlink_refused e v outfile) \<and> f' = f) \<or> f' = f(outfile := None) \<Longrightarrow>
     download_path e fctx db pkg outfile f (-1)
       [Downloading pkg, Ev_istream_from_url infile True,
        Ev_splice infile STDOUT_FILENO (pkg_size pkg) c, Ev_istream_close infile,
        Unable_to_download infile, Ev_unlink outfile]
       f'"
| stdout_complete:
    "repo_index e pkg < APK_MAX_REPOS e \<Longrightarrow> \<not> apk_simulate e \<Longrightarrow>
     flags fctx AND FETCH_STDOUT \<noteq> 0 \<Longrightarrow>
     infile = infile_path db pkg (repo_index e pkg) \<Longrightarrow>
     int (pkg_size pkg) < 2147483648 \<Longrightarrow>
     download_path e fctx db pkg outfile f 0
       [Downloading pkg, Ev_istream_from_url infile True,
        Ev_splice infile STDOUT_FILENO (pkg_size pkg) (int (pkg_size pkg)),
        Ev_istream_close infile] f"

subsection \<open>\<^verbatim>\<open>fetch_main\<close>\<close>

text \<open>
  Lines 166-173: the choice among the packages of a name. \<open>None\<close> is the \<^verbatim>\<open>NULL\<close> that
  \<^verbatim>\<open>pkg\<close> starts with; the list is \<^verbatim>\<open>pkgs->item[0 .. num-1]\<close>.
\<close>

fun select_pkg ::
  "(apk_package \<Rightarrow> apk_package \<Rightarrow> version_result) \<Rightarrow> apk_package list \<Rightarrow>
   apk_package option \<Rightarrow> apk_package option" where
  "select_pkg cmp [] pkg = pkg"
| "select_pkg cmp (x # xs) pkg =
     select_pkg cmp xs
       (case pkg of
          None \<Rightarrow> Some x
        | Some p \<Rightarrow> if cmp x p = APK_VERSION_GREATER then Some x else Some p)"

text \<open>
  Lines 158-162: the loop over the change list of the solver; the result is the last
  value of \<^verbatim>\<open>r\<close>, which is 0 when the loop runs to its end.
\<close>

fun fetch_changes ::
  "env \<Rightarrow> fetch_ctx \<Rightarrow> apk_database \<Rightarrow> apk_package list \<Rightarrow> world \<Rightarrow> int \<times> world" where
  "fetch_changes e fctx db [] w = (0, w)"
| "fetch_changes e fctx db (p # ps) w =
     (case fetch_package e fctx db p w of
        (r, w1) \<Rightarrow> if r \<noteq> 0 then (r, w1) else fetch_changes e fctx db ps w1)"

text \<open>
  How one round of the loop over the arguments ends: with the next argument, by leaving
  the loop for the label \<^verbatim>\<open>err\<close> with a value of \<^verbatim>\<open>r\<close> (\<^verbatim>\<open>goto err\<close> or \<^verbatim>\<open>break\<close>), or with
  the call \<^verbatim>\<open>fetch_package(fctx, &db, NULL)\<close>, which reads through the null pointer.
\<close>

datatype flow = Next | Leave int | Null_deref

text \<open>Lines 140-182: the body of the loop, for one argument.\<close>

definition fetch_arg ::
  "env \<Rightarrow> fetch_ctx \<Rightarrow> apk_database \<Rightarrow> string \<Rightarrow> world \<Rightarrow> flow \<times> world" where
  "fetch_arg e fctx db arg w =
     (let dep_name = db_names db arg;
          w0 = emit (Ev_db_get_name arg) w
      in if flags fctx AND FETCH_RECURSIVE \<noteq> 0
         then
           (let w1 = emit Ev_state_new w0
            in case apk_state_lock_dependency e w1 db dep_name of
                 (r, changes) \<Rightarrow>
                   (let w2 = emit (Ev_state_lock_dependency (name dep_name) r) w1
                    in if r \<noteq> 0
                       then (Leave r,
                             emit (Ev_error (''Unable to install '' @ quoted (name dep_name)))
                               (emit Ev_state_unref w2))
                       else
                         (case fetch_changes e fctx db changes w2 of
                            (r', w3) \<Rightarrow>
                              if r' \<noteq> 0 then (Leave r', w3)
                              else (Next, emit Ev_state_unref w3))))
         else
           (case pkgs dep_name of
              Some items \<Rightarrow>
                (case select_pkg (apk_pkg_version_compare e) items None of
                   None \<Rightarrow> (Null_deref, w0)
                 | Some pkg \<Rightarrow>
                     (case fetch_package e fctx db pkg w0 of
                        (r, w1) \<Rightarrow> if r \<noteq> 0 then (Leave r, w1) else (Next, w1)))
            | None \<Rightarrow>
                (Leave (-1),
                 emit (Ev_message (''Unable to get '' @ quoted (name dep_name))) w0)))"

text \<open>Line 139: the loop over \<^verbatim>\<open>argv\<close>.\<close>

fun fetch_args ::
  "env \<Rightarrow> fetch_ctx \<Rightarrow> apk_database \<Rightarrow> string list \<Rightarrow> world \<Rightarrow> flow \<times> world" where
  "fetch_args e fctx db [] w = (Next, w)"
| "fetch_args e fctx db (a # as) w =
     (case fetch_arg e fctx db a w of
        (Next, w1) \<Rightarrow> fetch_args e fctx db as w1
      | (Leave r, w1) \<Rightarrow> (Leave r, w1)
      | (Null_deref, w1) \<Rightarrow> (Null_deref, w1))"

datatype exit = Return int | Segfault

text \<open>
  Lines 135-137 and 185-187. When the loop ends by itself \<^verbatim>\<open>r\<close> is 0: it is 0 after
  \<^verbatim>\<open>apk_db_open\<close> and after every round that goes on to the next argument.
\<close>

definition fetch_main :: "env \<Rightarrow> fetch_ctx \<Rightarrow> string list \<Rightarrow> world \<Rightarrow> exit \<times> world" where
  "fetch_main e fctx argv w =
     (case apk_db_open e w of
        (r, db) \<Rightarrow>
          (let w1 = emit (Ev_db_open r) w
           in if r \<noteq> 0 then (Return r, w1)
              else
                (case fetch_args e fctx db argv w1 of
                   (Next, w2) \<Rightarrow> (Return 0, emit Ev_db_close w2)
                 | (Leave r', w2) \<Rightarrow> (Return r', emit Ev_db_close w2)
                 | (Null_deref, w2) \<Rightarrow> (Segfault, w2))))"

subsection \<open>Runs in sequence\<close>

text \<open>
  The world after \<^verbatim>\<open>fetch_package\<close> has run on a package, whatever it returned. Folded
  over a list, it is the world after the packages of the list have been fetched one after
  the other, in the order of the list.
\<close>

definition after_fetch ::
  "env \<Rightarrow> fetch_ctx \<Rightarrow> apk_database \<Rightarrow> world \<Rightarrow> apk_package \<Rightarrow> world" where
  "after_fetch e fctx db w p = snd (fetch_package e fctx db p w)"

subsection \<open>Concrete inputs\<close>

text \<open>
  A package \<open>a-1\<close> of five bytes in repository 0, the same package in no repository, a
  database whose repositories all live under \<open>/repo\<close>, and an environment in which every
  call succeeds and every stream delivers the whole package.
\<close>

definition ex_pkg :: apk_package where
  "ex_pkg = \<lparr>pkg_name = ''a'', version = ''1'', pkg_size = 5, pkg_repos = 1\<rparr>"

definition ex_pkg_norepo :: apk_package where
  "ex_pkg_norepo = \<lparr>pkg_name = ''a'', version = ''1'', pkg_size = 5, pkg_repos = 0\<rparr>"

definition ex_db :: apk_database where
  "ex_db = \<lparr>db_repos_url = (\<lambda>i. ''/repo''),
            db_names = (\<lambda>s. \<lparr>name = s, pkgs = Some [ex_pkg]\<rparr>)\<rparr>"

definition ex_env :: env where
  "ex_env = \<lparr>APK_MAX_REPOS = 32, apk_simulate = False,
             apk_url_local_file = (\<lambda>u. True),
             creat_error = (\<lambda>w p. None),
             link_refused = (\<lambda>w old new. False),
             unlink_refused = (\<lambda>w p. False),
             apk_istream_from_url = (\<lambda>w u. True),
             apk_istream_splice = (\<lambda>w u n. int n),
             uninit_outfile = (\<lambda>w. []),
             uninit_real_infile = (\<lambda>w. []),
             apk_pkg_version_compare =
               (\<lambda>a b. if pkg_size b < pkg_size a then APK_VERSION_GREATER
                       else if pkg_size a < pkg_size b then APK_VERSION_LESS
                       else APK_VERSION_EQUAL),
             apk_db_open = (\<lambda>w. (0, ex_db)),
             apk_state_lock_dependency = (\<lambda>w db n. (0, [ex_pkg]))\<rparr>"

definition ex_fctx :: fetch_ctx where
  "ex_fctx = \<lparr>flags = 0, outdir = None\<rparr>"

definition ex_world :: world where
  "ex_world = \<lparr>files = Map.empty, links = [], trace = []\<rparr>"

text \<open>A world in which \<open>./a-1.apk\<close> is there already, with the declared five bytes.\<close>

definition ex_world_present :: world where
  "ex_world_present = \<lparr>files = [''./a-1.apk'' \<mapsto> Reg 5], links = [], trace = []\<rparr>"

text \<open>The same environment with a stream that ends after three bytes, and with a stream
  that cannot be opened.\<close>

definition ex_env_short :: env where
  "ex_env_short = ex_env\<lparr>apk_istream_splice := (\<lambda>w u n. 3)\<rparr>"

definition ex_env_noopen :: env where
  "ex_env_noopen = ex_env\<lparr>apk_istream_from_url := (\<lambda>w u. False)\<rparr>"



definition ex_env_sim :: env where
  "ex_env_sim = ex_env\<lparr>apk_simulate := True\<rparr>"

definition ex_fctx_link :: fetch_ctx where
  "ex_fctx_link = \<lparr>flags = FETCH_LINK, outdir = None\<rparr>"

definition ex_world_repo :: world where
  "ex_world_repo =
     \<lparr>files = [''/repo/a-1.apk'' \<mapsto> Symlink ''/pool/a.apk'', ''/pool/a.apk'' \<mapsto> Reg 3],
      links = [],
      trace = []\<rparr>"

definition ex_world_linked :: world where
  "ex_world_linked =
     \<lparr>files = [''/repo/a-1.apk'' \<mapsto> Symlink ''/pool/a.apk'', ''/pool/a.apk'' \<mapsto> Reg 3,
               ''./a-1.apk'' \<mapsto> Reg 3],
      links = [[''/pool/a.apk'', ''./a-1.apk'']],
      trace = [Ev_lstat ''./a-1.apk'', Downloading ex_pkg, Ev_readlink ''/repo/a-1.apk'',
               Ev_link ''/pool/a.apk'' ''./a-1.apk'' True]\<rparr>"

text \<open>
  Three variants of one name, in the order 1.0, 1.2, 1.1, and a comparison that reads a
  version as a number written in base 256.
\<close>

definition version_key :: "string \<Rightarrow> nat" where
  "version_key v = foldl (\<lambda>n c. n * 256 + of_char c) 0 v"

definition ex_variants :: "apk_package list" where
  "ex_variants =
     [\<lparr>pkg_name = ''a'', version = ''1.0'', pkg_size = 5, pkg_repos = 1\<rparr>,
      \<lparr>pkg_name = ''a'', version = ''1.2'', pkg_size = 5, pkg_repos = 1\<rparr>,
      \<lparr>pkg_name = ''a'', version = ''1.1'', pkg_size = 5, pkg_repos = 1\<rparr>]"

definition ex_db_variants :: apk_database where
  "ex_db_variants = \<lparr>db_repos_url = (\<lambda>i. ''/repo''),
                     db_names = (\<lambda>s. \<lparr>name = s, pkgs = Some ex_variants\<rparr>)\<rparr>"

definition ex_env_versions :: env where
  "ex_env_versions = ex_env\<lparr>apk_pkg_version_compare :=
     (\<lambda>a b. if version_key (version b) < version_key (version a) then APK_VERSION_GREATER
             else if version_key (version a) < version_key (version b) then APK_VERSION_LESS
             else APK_VERSION_EQUAL)\<rparr>"

text \<open>
  A solver that answers with the three packages \<open>a\<close>, \<open>b\<close>, \<open>c\<close>, of which \<open>b\<close> is in no
  repository, and one that answers with a single package that is in no repository.
\<close>

definition ex_pkg_b :: apk_package where
  "ex_pkg_b = \<lparr>pkg_name = ''b'', version = ''1'', pkg_size = 5, pkg_repos = 0\<rparr>"

definition ex_pkg_c :: apk_package where
  "ex_pkg_c = \<lparr>pkg_name = ''c'', version = ''1'', pkg_size = 5, pkg_repos = 1\<rparr>"

definition ex_env_abc :: env where
  "ex_env_abc = ex_env\<lparr>apk_state_lock_dependency :=
     (\<lambda>w db n. (0, [ex_pkg, ex_pkg_b, ex_pkg_c]))\<rparr>"

definition ex_env_lock_norepo :: env where
  "ex_env_lock_norepo = ex_env\<lparr>apk_state_lock_dependency := (\<lambda>w db n. (0, [ex_pkg_norepo]))\<rparr>"

definition ex_fctx_rec :: fetch_ctx where
  "ex_fctx_rec = \<lparr>flags = FETCH_RECURSIVE, outdir = None\<rparr>"

text \<open>
  The worlds of a run with that solver: when the solver has answered, after the fetch of
  \<open>a\<close>, and after the failed fetch of \<open>b\<close>.
\<close>

definition ex_w0 :: world where
  "ex_w0 = \<lparr>files = Map.empty,
            links = [],
            trace = [Ev_db_open 0, Ev_db_get_name ''a'', Ev_state_new,
                     Ev_state_lock_dependency ''a'' 0]\<rparr>"

definition ex_w1 :: world where
  "ex_w1 = \<lparr>files = [''./a-1.apk'' \<mapsto> Reg 5],
            links = [],
            trace = trace ex_w0 @
                    [Ev_lstat ''./a-1.apk'', Downloading ex_pkg, Ev_creat ''./a-1.apk'' True,
                     Ev_istream_from_url ''/repo/a-1.apk'' True,
                     Ev_splice ''/repo/a-1.apk'' (Fd ''./a-1.apk'') 5 5,
                     Ev_istream_close ''/repo/a-1.apk'', Ev_close (Fd ''./a-1.apk'')]\<rparr>"

definition ex_w2 :: world where
  "ex_w2 = \<lparr>files = [''./a-1.apk'' \<mapsto> Reg 5],
            links = [],
            trace = trace ex_w1 @
                    [Ev_lstat ''./b-1.apk'', Downloading ex_pkg_b, Not_present ex_pkg_b]\<rparr>"

section \<open>Properties\<close>

subsection \<open>Traces and paths\<close>

lemma trace_emit: "trace (emit ev w) = trace w @ [ev]"
  by (simp add: emit_def)

lemma files_emit: "files (emit ev w) = files w"
  by (simp add: emit_def)

lemma new_events_emit: "new_events w (emit ev w) = [ev]"
  by (simp add: new_events_def emit_def)


lemma ex_outfile_norepo: "outfile_path ex_fctx ex_pkg_norepo = ''./a-1.apk''"
  by (simp add: outfile_path_def ex_fctx_def ex_pkg_norepo_def snprintf_def)

subsection \<open>Every run takes one of the paths\<close>

lemma write_file_self: "write_file w q n q = Some (Reg n)"
  by (simp add: write_file_def names_of_def)

lemma splice_written_emit: "splice_written d c (emit ev w) = splice_written d c w"
  by (cases d) (simp_all add: write_file_def names_of_def emit_def)

lemma splice_result_range:
  "splice_result x n = -1 \<or> (0 \<le> splice_result x n \<and> splice_result x n \<le> int n)"
  by (simp add: splice_result_def)

lemma to_int32_less: "to_int32 x < 2147483648"
proof -
  have "(x + 2147483648) mod 4294967296 < 4294967296"
    by (rule pos_mod_bound) simp
  thus ?thesis
    by (simp add: to_int32_def)
qed

lemma to_int32_small:
  assumes "- 2147483648 \<le> x" and "x < 2147483648"
  shows "to_int32 x = x"
proof -
  from assms have "(x + 2147483648) mod 4294967296 = x + 2147483648"
    by (intro mod_pos_pos_trivial) simp_all
  thus ?thesis
    by (simp add: to_int32_def)
qed

lemma to_int32_complete:
  assumes "c = -1 \<or> (0 \<le> c \<and> c \<le> int n)" and "to_int32 c = int n"
  shows "c = int n \<and> int n < 2147483648"
proof (cases "c < 2147483648")
  case True
  with assms(1) have "to_int32 c = c"
    by (intro to_int32_small) auto
  with assms(2) True show ?thesis
    by simp
next
  case False
  with assms(1) have "2147483648 \<le> int n"
    by auto
  with assms(2) to_int32_less [of c] show ?thesis
    by simp
qed

lemma fetch_stream_outcome:
  assumes "fetch_stream e pkg infile outfile d w = (r, w')"
  shows "(r = -1 \<and> files w' = files w
          \<and> trace w' = trace w @ [Ev_istream_from_url infile False, Unable_to_download infile])
       \<or> (\<exists>c. (c = -1 \<or> (0 \<le> c \<and> c \<le> int (pkg_size pkg)))
            \<and> to_int32 c \<noteq> int (pkg_size pkg) \<and> r = -1
            \<and> (((\<exists>v. unlink_refused e v outfile) \<and> files w' = splice_written d c w)
                 \<or> files w' = (splice_written d c w)(outfile := None))
            \<and> trace w' = trace w @ [Ev_istream_from_url infile True,
                  Ev_splice infile d (pkg_size pkg) c, Ev_istream_close infile]
                @ (if d \<noteq> STDOUT_FILENO then [Ev_close d] else [])
                @ [Unable_to_download infile, Ev_unlink outfile])
       \<or> (r = 0 \<and> int (pkg_size pkg) < 2147483648
            \<and> files w' = splice_written d (int (pkg_size pkg)) w
            \<and> trace w' = trace w @ [Ev_istream_from_url infile True,
                  Ev_splice infile d (pkg_size pkg) (int (pkg_size pkg)),
                  Ev_istream_close infile]
                @ (if d \<noteq> STDOUT_FILENO then [Ev_close d] else []))"
proof (cases "apk_istream_from_url e w infile")
  case False
  with assms show ?thesis
    by (auto simp: fetch_stream_def Let_def emit_def)
next
  case True
  let ?w1 = "emit (Ev_istream_from_url infile True) w"
  define c where "c = splice_result (apk_istream_splice e ?w1 infile (pkg_size pkg)) (pkg_size pkg)"
  define w4 where "w4 =
    (let w2 = emit (Ev_splice infile d (pkg_size pkg) c)
                (?w1\<lparr>files := splice_written d c ?w1\<rparr>);
         w3 = emit (Ev_istream_close infile) w2
     in if d \<noteq> STDOUT_FILENO then sys_close d w3 else w3)"
  have range: "c = -1 \<or> (0 \<le> c \<and> c \<le> int (pkg_size pkg))"
    unfolding c_def by (rule splice_result_range)
  have "fetch_stream e pkg infile outfile d w =
      (if to_int32 c \<noteq> int (pkg_size pkg)
       then (-1, sys_unlink e outfile (emit (Unable_to_download infile) w4))
       else (0, w4))"
    using True by (simp add: fetch_stream_def Let_def c_def w4_def)
  with assms have run: "(r, w') =
      (if to_int32 c \<noteq> int (pkg_size pkg)
       then (-1, sys_unlink e outfile (emit (Unable_to_download infile) w4))
       else (0, w4))"
    by simp
  have tr4: "trace w4 = trace w @ [Ev_istream_from_url infile True,
                  Ev_splice infile d (pkg_size pkg) c, Ev_istream_close infile]
                @ (if d \<noteq> STDOUT_FILENO then [Ev_close d] else [])"
    by (simp add: w4_def Let_def sys_close_def emit_def)
  have fl4: "files w4 = splice_written d c w"
    by (simp add: w4_def Let_def sys_close_def splice_written_emit) (simp add: emit_def)
  show ?thesis
  proof (cases "to_int32 c = int (pkg_size pkg)")
    case complete: True
    from to_int32_complete [OF range complete]
    have c: "c = int (pkg_size pkg)" and small: "int (pkg_size pkg) < 2147483648"
      by simp_all
    from run complete have "r = 0" and "w' = w4"
      by simp_all
    with small tr4 fl4 show ?thesis
      unfolding c by simp
  next
    case short: False
    with run have r: "r = -1"
      and w': "w' = sys_unlink e outfile (emit (Unable_to_download infile) w4)"
      by simp_all
    from w' have tr: "trace w' = trace w @ [Ev_istream_from_url infile True,
                  Ev_splice infile d (pkg_size pkg) c, Ev_istream_close infile]
                @ (if d \<noteq> STDOUT_FILENO then [Ev_close d] else [])
                @ [Unable_to_download infile, Ev_unlink outfile]"
      by (simp add: sys_unlink_def emit_def tr4)
    from w' have fl: "((\<exists>v. unlink_refused e v outfile) \<and> files w' = splice_written d c w)
                 \<or> files w' = (splice_written d c w)(outfile := None)"
      by (cases "unlink_refused e (emit (Unable_to_download infile) w4) outfile")
         (auto simp: sys_unlink_def emit_def fl4)
    from range short r tr fl show ?thesis
      by blast
  qed
qed

lemma fetch_stream_large:
  assumes "2147483648 \<le> int (pkg_size pkg)"
  shows "fst (fetch_stream e pkg infile outfile d w) = -1"
proof -
  obtain r w' where run: "fetch_stream e pkg infile outfile d w = (r, w')"
    by (cases "fetch_stream e pkg infile outfile d w")
  from fetch_stream_outcome [OF run] assms have "r = -1"
    by auto
  with run show ?thesis
    by simp
qed

lemma fetch_link_outcome:
  assumes "fetch_link e infile outfile w = (ok, w')"
  shows "\<exists>src. trace w' = trace w @ [Ev_readlink infile, Ev_link src outfile ok]
           \<and> (\<forall>t. files w infile = Some (Symlink t) \<and> 0 < length t \<and> length t < 256 \<longrightarrow> src = t)
           \<and> (if ok then files w outfile = None \<and> (\<exists>n. files w src = Some n \<and> files w' = (files w)(outfile \<mapsto> n))
               else files w' = files w)"
  using assms
  by (auto simp: fetch_link_def sys_readlink_def sys_link_def Let_def emit_def
      split: option.splits node.splits if_splits prod.splits)

lemma sys_creat_outcome:
  assumes "sys_creat e outfile w = (res, w')"
  shows "(\<exists>msg. res = Inl msg \<and> files w' = files w \<and> trace w' = trace w @ [Ev_creat outfile False])
       \<or> (\<exists>q. follow 41 (files w) outfile = Some q \<and> res = Inr (Fd q)
              \<and> files w' = write_file w q 0 \<and> trace w' = trace w @ [Ev_creat outfile True])"
  using assms by (auto simp: sys_creat_def emit_def split: option.splits)


lemma download_pathI:
  assumes "download_path e fctx db pkg outfile (files w) r' evs f'"
    and "r = r'" and "trace w' = trace w @ evs" and "files w' = f'"
  shows "\<exists>evs. trace w' = trace w @ evs
           \<and> download_path e fctx db pkg outfile (files w) r evs (files w')"
  using assms by blast

lemma fetch_download_paths:
  assumes run: "fetch_download e fctx db pkg outfile w = (r, w')"
  shows "\<exists>evs. trace w' = trace w @ evs
           \<and> download_path e fctx db pkg outfile (files w) r evs (files w')"
proof -
  let ?infile = "infile_path db pkg (repo_index e pkg)"
  let ?w1 = "emit (Downloading pkg) w"
  have w1: "trace ?w1 = trace w @ [Downloading pkg]" "files ?w1 = files w"
    by (simp_all add: emit_def)
  consider (norepo) "APK_MAX_REPOS e \<le> repo_index e pkg"
    | (sim) "repo_index e pkg < APK_MAX_REPOS e" "apk_simulate e"
    | (go) "repo_index e pkg < APK_MAX_REPOS e" "\<not> apk_simulate e"
    by fastforce
  then show ?thesis
  proof cases
    case norepo
    with run have "r = -1"
      and "w' = emit (Not_present pkg) ?w1"
      by (simp_all add: fetch_download_def Let_def)
    then show ?thesis
      by - (rule download_pathI [OF download_path.no_repository [OF norepo]], simp_all add: emit_def)
  next
    case sim
    with run have "r = 0" and "w' = ?w1"
      by (simp_all add: fetch_download_def Let_def)
    then show ?thesis
      by - (rule download_pathI [OF download_path.simulated [OF sim]], simp_all add: emit_def)
  next
    case go
    obtain res w2 where od: "fetch_open_dest e fctx ?infile outfile ?w1 = (res, w2)"
      by (cases "fetch_open_dest e fctx ?infile outfile ?w1")
    have rest: "(case res of Inl r \<Rightarrow> (r, w2)
                 | Inr d \<Rightarrow> fetch_stream e pkg ?infile outfile d w2) = (r, w')"
      using run go od by (simp add: fetch_download_def Let_def)
    show ?thesis
    proof (cases "flags fctx AND FETCH_STDOUT = 0")
      case stdout: False
      with od have "res = Inr STDOUT_FILENO" "w2 = ?w1"
        by (simp_all add: fetch_open_dest_def)
      with rest have "fetch_stream e pkg ?infile outfile STDOUT_FILENO ?w1 = (r, w')"
        by simp
      from fetch_stream_outcome [OF this]
      consider (nopen) "r = -1" "files w' = files ?w1"
          "trace w' = trace ?w1 @ [Ev_istream_from_url ?infile False, Unable_to_download ?infile]"
        | (short) c where "c = -1 \<or> (0 \<le> c \<and> c \<le> int (pkg_size pkg))"
          "to_int32 c \<noteq> int (pkg_size pkg)" "r = -1"
          "((\<exists>v. unlink_refused e v outfile) \<and> files w' = splice_written STDOUT_FILENO c ?w1)
             \<or> files w' = (splice_written STDOUT_FILENO c ?w1)(outfile := None)"
          "trace w' = trace ?w1 @ [Ev_istream_from_url ?infile True,
                  Ev_splice ?infile STDOUT_FILENO (pkg_size pkg) c, Ev_istream_close ?infile]
                @ (if STDOUT_FILENO \<noteq> STDOUT_FILENO then [Ev_close STDOUT_FILENO] else [])
                @ [Unable_to_download ?infile, Ev_unlink outfile]"
        | (complete) "r = 0" "int (pkg_size pkg) < 2147483648"
          "files w' = splice_written STDOUT_FILENO (int (pkg_size pkg)) ?w1"
          "trace w' = trace ?w1 @ [Ev_istream_from_url ?infile True,
                  Ev_splice ?infile STDOUT_FILENO (pkg_size pkg) (int (pkg_size pkg)),
                  Ev_istream_close ?infile]
                @ (if STDOUT_FILENO \<noteq> STDOUT_FILENO then [Ev_close STDOUT_FILENO] else [])"
        by blast
      then show ?thesis
      proof cases
        case nopen
        then show ?thesis
          by - (rule download_pathI [OF download_path.stdout_open_failed [OF go stdout refl]], simp_all add: trace_emit files_emit)
      next
        case (short c)
        from short(4) have fin: "((\<exists>v. unlink_refused e v outfile) \<and> files w' = files w)
            \<or> files w' = (files w)(outfile := None)"
          by (simp add: files_emit)
        from short(3,5) show ?thesis
          by - (rule download_pathI [OF download_path.stdout_short [where c = c and f' = "files w'", OF go stdout refl short(1) short(2) fin]], simp_all add: trace_emit)
      next
        case complete
        then show ?thesis
          by - (rule download_pathI [OF download_path.stdout_complete [OF go stdout refl complete(2)]], simp_all add: trace_emit files_emit)
      qed
    next
      case filemode: True
      let ?attempt = "flags fctx AND FETCH_LINK \<noteq> 0 \<and> apk_url_local_file e ?infile"
      obtain ok w3 where lk:
        "(if ?attempt then fetch_link e ?infile outfile ?w1 else (False, ?w1)) = (ok, w3)"
        by (cases "if ?attempt then fetch_link e ?infile outfile ?w1 else (False, ?w1)")
      show ?thesis
      proof (cases ok)
        case True
        with lk have lnk: "flags fctx AND FETCH_LINK \<noteq> 0" "apk_url_local_file e ?infile"
          and fl: "fetch_link e ?infile outfile ?w1 = (True, w3)"
          by (auto split: if_splits)
        from od filemode lk True have "res = Inl 0" "w2 = w3"
          by (simp_all add: fetch_open_dest_def)
        with rest have r: "r = 0" "w' = w3" by simp_all
        from fetch_link_outcome [OF fl] obtain src n where
          "trace w3 = trace ?w1 @ [Ev_readlink ?infile, Ev_link src outfile True]"
          "\<forall>t. files w ?infile = Some (Symlink t) \<and> 0 < length t \<and> length t < 256 \<longrightarrow> src = t"
          "files w outfile = None" "files w src = Some n" "files w3 = (files w)(outfile \<mapsto> n)"
          unfolding w1 by auto
        with r show ?thesis
          by - (rule download_pathI [OF download_path.linked [where src = src and n = n, OF go filemode lnk(1) refl lnk(2)]], simp_all add: trace_emit files_emit)
      next
        case False
        have "\<exists>a. trace w3 = trace ?w1 @ link_events ?infile outfile a \<and> files w3 = files w"
        proof (cases ?attempt)
          case True
          with lk False have "fetch_link e ?infile outfile ?w1 = (False, w3)" by simp
          from fetch_link_outcome [OF this] obtain src where
            "trace w3 = trace ?w1 @ [Ev_readlink ?infile, Ev_link src outfile False]"
            "files w3 = files w"
            unfolding w1 by auto
          then have "trace w3 = trace ?w1 @ link_events ?infile outfile (Some src) \<and> files w3 = files w"
            by (simp add: link_events_def)
          then show ?thesis ..
        next
          case False
          with lk have "w3 = ?w1" by simp
          then have "trace w3 = trace ?w1 @ link_events ?infile outfile None \<and> files w3 = files w"
            by (simp add: link_events_def w1)
          then show ?thesis ..
        qed
        then obtain a where w3: "trace w3 = trace ?w1 @ link_events ?infile outfile a"
          "files w3 = files w" by blast
        obtain cres w4 where cr: "sys_creat e outfile w3 = (cres, w4)"
          by (cases "sys_creat e outfile w3")
        from od filemode lk False cr
        have res: "(case cres of Inl msg \<Rightarrow> (Inl (-1), emit (Creat_failed outfile msg) w4)
                    | Inr d \<Rightarrow> (Inr d, w4)) = (res, w2)"
          by (simp add: fetch_open_dest_def)
        from sys_creat_outcome [OF cr] show ?thesis
        proof (elim disjE exE conjE)
          fix msg
          assume "cres = Inl msg" "files w4 = files w3" "trace w4 = trace w3 @ [Ev_creat outfile False]"
          with res rest w3 have "r = -1" "files w' = files w"
            "trace w' = trace w @ Downloading pkg # link_events ?infile outfile a
               @ [Ev_creat outfile False, Creat_failed outfile msg]"
            by (auto simp: emit_def)
          then show ?thesis
            by - (rule download_pathI [OF download_path.creat_failed [where a = a and msg = msg, OF go filemode refl]], simp_all)
        next
          fix q
          assume q: "follow 41 (files w3) outfile = Some q" and "cres = Inr (Fd q)"
            and w4: "files w4 = write_file w3 q 0" "trace w4 = trace w3 @ [Ev_creat outfile True]"
          with res rest have "fetch_stream e pkg ?infile outfile (Fd q) w4 = (r, w')"
            by auto
          from q w3 have fq: "follow 41 (files w) outfile = Some q" by simp
          from fetch_stream_outcome [OF \<open>fetch_stream e pkg ?infile outfile (Fd q) w4 = (r, w')\<close>]
          consider (nopen) "r = -1" "files w' = files w4"
              "trace w' = trace w4 @ [Ev_istream_from_url ?infile False, Unable_to_download ?infile]"
            | (short) c where "c = -1 \<or> (0 \<le> c \<and> c \<le> int (pkg_size pkg))"
              "to_int32 c \<noteq> int (pkg_size pkg)" "r = -1"
              "((\<exists>v. unlink_refused e v outfile) \<and> files w' = splice_written (Fd q) c w4)
                 \<or> files w' = (splice_written (Fd q) c w4)(outfile := None)"
              "trace w' = trace w4 @ [Ev_istream_from_url ?infile True,
                  Ev_splice ?infile (Fd q) (pkg_size pkg) c, Ev_istream_close ?infile]
                @ (if Fd q \<noteq> STDOUT_FILENO then [Ev_close (Fd q)] else [])
                @ [Unable_to_download ?infile, Ev_unlink outfile]"
            | (complete) "r = 0" "int (pkg_size pkg) < 2147483648"
              "files w' = splice_written (Fd q) (int (pkg_size pkg)) w4"
              "trace w' = trace w4 @ [Ev_istream_from_url ?infile True,
                  Ev_splice ?infile (Fd q) (pkg_size pkg) (int (pkg_size pkg)),
                  Ev_istream_close ?infile]
                @ (if Fd q \<noteq> STDOUT_FILENO then [Ev_close (Fd q)] else [])"
            by blast
          then show ?thesis
          proof cases
            case nopen
            from nopen(2) w4(1) have fin: "files w' q = Some (Reg 0)"
              by (simp add: write_file_self)
            from nopen(1,3) show ?thesis
              by - (rule download_pathI [OF download_path.file_open_failed [where a = a and f' = "files w'", OF go filemode refl fq fin]], simp_all add: trace_emit w3 w4)
          next
            case (short c)
            from short(4) have fin: "(\<exists>v. unlink_refused e v outfile) \<or> files w' outfile = None"
              by auto
            from short(3,5) show ?thesis
              by - (rule download_pathI [OF download_path.file_short [where c = c and a = a and f' = "files w'", OF go filemode refl fq short(1) short(2) fin]], simp_all add: trace_emit w3 w4)
          next
            case complete
            from complete(3) have fin: "files w' q = Some (Reg (pkg_size pkg))"
              by (simp add: write_file_self)
            from complete(1,4) show ?thesis
              by - (rule download_pathI [OF download_path.file_complete [where a = a and f' = "files w'", OF go filemode refl fq complete(2) fin]], simp_all add: trace_emit w3 w4)
          qed
        qed
      qed
    qed
  qed
qed


lemma find_repo_hit: "find_repo m r i < m \<Longrightarrow> r AND BIT (find_repo m r i) \<noteq> 0"
proof (induction m r i rule: find_repo.induct)
  case (1 maxr repos i)
  then show ?case
    by (cases "i < maxr"; cases "repos AND BIT i \<noteq> 0") (simp_all add: find_repo.simps [of maxr repos i])
qed

lemma find_repo_skips: "i \<le> j \<Longrightarrow> j < find_repo m r i \<Longrightarrow> r AND BIT j = 0"
proof (induction m r i rule: find_repo.induct)
  case (1 maxr repos i)
  show ?case
  proof (cases "i < maxr \<and> repos AND BIT i = 0")
    case True
    with "1.prems" have later: "j < find_repo maxr repos (i + 1)"
      by (simp add: find_repo.simps [of maxr repos i])
    show ?thesis
    proof (cases "j = i")
      case True
      with \<open>i < maxr \<and> repos AND BIT i = 0\<close> show ?thesis by simp
    next
      case False
      with "1.prems" have "i + 1 \<le> j" by simp
      with "1.IH" True later show ?thesis by simp
    qed
  next
    case False
    with "1.prems" show ?thesis
      by (auto simp: find_repo.simps [of maxr repos i] split: if_splits)
  qed
qed

lemma find_repo_none: "i \<le> m \<Longrightarrow> \<forall>j<m. r AND BIT j = 0 \<Longrightarrow> find_repo m r i = m"
proof (induction m r i rule: find_repo.induct)
  case (1 maxr repos i)
  then show ?case
    by (cases "i < maxr")
       (simp_all add: find_repo.simps [of maxr repos i] find_repo.simps [of maxr repos maxr])
qed

lemma repo_index_found:
  assumes "j < APK_MAX_REPOS e" and "pkg_repos pkg AND BIT j \<noteq> 0"
  shows "repo_index e pkg \<le> j"
  using find_repo_skips [of 0 j "APK_MAX_REPOS e" "pkg_repos pkg"] assms
  by force

lemma follow_plain: "0 < k \<Longrightarrow> \<forall>t. f p \<noteq> Some (Symlink t) \<Longrightarrow> follow k f p = Some p"
  by (cases k) (auto split: option.splits node.splits)

lemma fetch_package_cases:
  assumes "fetch_package e fctx db pkg w = (r, w')"
  shows "(flags fctx AND FETCH_STDOUT = 0
          \<and> map_option st_size (files w (outfile_path fctx pkg)) = Some (pkg_size pkg)
          \<and> r = 0 \<and> w' = emit (Ev_lstat (outfile_path fctx pkg)) w)
       \<or> (flags fctx AND FETCH_STDOUT = 0
          \<and> map_option st_size (files w (outfile_path fctx pkg)) \<noteq> Some (pkg_size pkg)
          \<and> (\<exists>evs. trace w' = trace w @ Ev_lstat (outfile_path fctx pkg) # evs
                \<and> download_path e fctx db pkg (outfile_path fctx pkg) (files w) r evs (files w')))
       \<or> (flags fctx AND FETCH_STDOUT \<noteq> 0
          \<and> (\<exists>evs. trace w' = trace w @ evs
                \<and> download_path e fctx db pkg (uninit_outfile e w) (files w) r evs (files w')))"
proof (cases "flags fctx AND FETCH_STDOUT = 0")
  case filemode: True
  show ?thesis
  proof (cases "map_option st_size (files w (outfile_path fctx pkg)) = Some (pkg_size pkg)")
    case True
    with filemode assms show ?thesis
      by (simp add: fetch_package_def sys_lstat_def del: map_option_eq_Some)
  next
    case False
    with filemode assms
    have "fetch_download e fctx db pkg (outfile_path fctx pkg)
            (emit (Ev_lstat (outfile_path fctx pkg)) w) = (r, w')"
      by (simp add: fetch_package_def sys_lstat_def del: map_option_eq_Some)
    from fetch_download_paths [OF this] filemode False show ?thesis
      by (simp add: trace_emit files_emit)
  qed
next
  case False
  with assms have "fetch_download e fctx db pkg (uninit_outfile e w) w = (r, w')"
    by (simp add: fetch_package_def)
  from fetch_download_paths [OF this] False show ?thesis
    by simp
qed

lemmas event_defs = Downloading_def Not_present_def Creat_failed_def Unable_to_download_def


lemmas fetch_defs = fetch_package_def fetch_download_def fetch_open_dest_def fetch_link_def
  fetch_stream_def sys_lstat_def sys_readlink_def sys_link_def sys_creat_def sys_close_def
  sys_unlink_def emit_def Let_def write_file_def names_of_def drop_name_def join_name_def
  splice_result_def to_int32_def

lemmas ex_defs = ex_env_def ex_fctx_def ex_db_def ex_pkg_def ex_world_def
  outfile_path_def infile_path_def snprintf_def pkg_label_def
  FETCH_STDOUT_def FETCH_LINK_def FETCH_RECURSIVE_def

lemma find_repo_first: "0 < m \<Longrightarrow> r AND BIT 0 \<noteq> 0 \<Longrightarrow> find_repo m r 0 = 0"
  by (simp add: find_repo.simps [of m r 0])


lemma ex_noopen_run:
  "fetch_package ex_env_noopen ex_fctx ex_db ex_pkg ex_world =
     (-1, \<lparr>files = [''./a-1.apk'' \<mapsto> Reg 0],
           links = [],
           trace = [Ev_lstat ''./a-1.apk'', Downloading ex_pkg, Ev_creat ''./a-1.apk'' True,
                    Ev_istream_from_url ''/repo/a-1.apk'' False,
                    Unable_to_download ''/repo/a-1.apk'']\<rparr>)"
  by (simp add: fetch_defs ex_env_noopen_def ex_defs find_repo_first BIT_def follow_plain)


subsection \<open>The check for a file that is there already\<close>

lemma fetch_package_present:
  assumes "flags fctx AND FETCH_STDOUT = 0"
    and "map_option st_size (files w (outfile_path fctx pkg)) = Some (pkg_size pkg)"
  shows "fetch_package e fctx db pkg w = (0, emit (Ev_lstat (outfile_path fctx pkg)) w)"
  using assms by (simp add: fetch_package_def sys_lstat_def)

text \<open>
  C10. The check for a file that is there already comes before the search for a
  repository: for a package that no repository slot carries, in file mode (the stdout flag
  is off), when the entry at the output path exists and has the declared size,
  \<^verbatim>\<open>fetch_package\<close> returns 0, the file map is unchanged, and the only call it has made is
  the \<^verbatim>\<open>lstat\<close>: no progress message, no error message, and the test for a package that is
  in no repository is not reached.
\<close>

theorem present_file_precedes_repository_lookup:
  assumes "\<forall>i < APK_MAX_REPOS e. pkg_repos pkg AND BIT i = 0"
    and "flags fctx AND FETCH_STDOUT = 0"
    and "files w (outfile_path fctx pkg) = Some n"
    and "st_size n = pkg_size pkg"
    and "fetch_package e fctx db pkg w = (r, w')"
  shows "r = 0 \<and> files w' = files w \<and> new_events w w' = [Ev_lstat (outfile_path fctx pkg)]
         \<and> (\<forall>m. Ev_message m \<notin> set (new_events w w') \<and> Ev_error m \<notin> set (new_events w w'))"
proof -
  have "map_option st_size (files w (outfile_path fctx pkg)) = Some (pkg_size pkg)"
    using assms(3,4) by simp
  from fetch_package_present [OF assms(2) this, of e db] assms(5)
  have "r = 0" and w': "w' = emit (Ev_lstat (outfile_path fctx pkg)) w"
    by simp_all
  then show ?thesis
    by (simp add: files_emit new_events_emit)
qed

theorem present_file_precedes_repository_lookup_witness:
  "pkg_repos ex_pkg_norepo = 0
   \<and> flags ex_fctx AND FETCH_STDOUT = 0
   \<and> files ex_world_present (outfile_path ex_fctx ex_pkg_norepo) = Some (Reg 5)
   \<and> st_size (Reg 5) = pkg_size ex_pkg_norepo
   \<and> fst (fetch_package ex_env ex_fctx ex_db ex_pkg_norepo ex_world_present) = 0
   \<and> new_events ex_world_present
        (snd (fetch_package ex_env ex_fctx ex_db ex_pkg_norepo ex_world_present))
      = [Ev_lstat ''./a-1.apk'']"
proof -
  have h0: "pkg_repos ex_pkg_norepo = 0"
    by (simp add: ex_pkg_norepo_def)
  have h1: "\<forall>i < APK_MAX_REPOS ex_env. pkg_repos ex_pkg_norepo AND BIT i = 0"
    by (simp add: h0)
  have h2: "flags ex_fctx AND FETCH_STDOUT = 0"
    by (simp add: ex_fctx_def)
  have h3: "files ex_world_present (outfile_path ex_fctx ex_pkg_norepo) = Some (Reg 5)"
    by (simp add: ex_outfile_norepo ex_world_present_def)
  have h4: "st_size (Reg 5) = pkg_size ex_pkg_norepo"
    by (simp add: ex_pkg_norepo_def)
  from present_file_precedes_repository_lookup [OF h1 h2 h3 h4 surjective_pairing]
  show ?thesis
    using h0 h2 h3 h4 by (simp add: ex_outfile_norepo)
qed


subsection \<open>A transfer of the wrong length\<close>





subsection \<open>Simulation\<close>

text \<open>
  C7. When the simulate flag is set and some repository slot carries the package,
  \<^verbatim>\<open>fetch_package\<close> returns 0 and leaves the file map as it was, whether or not the file
  is there already. The only calls it makes are the \<^verbatim>\<open>lstat\<close> of the output path and the
  progress message: no file is created, linked or removed and no stream is opened.
\<close>

theorem simulate_changes_nothing:
  assumes "apk_simulate e"
    and "j < APK_MAX_REPOS e" and "pkg_repos pkg AND BIT j \<noteq> 0"
    and "fetch_package e fctx db pkg w = (r, w')"
  shows "r = 0 \<and> files w' = files w
         \<and> set (new_events w w') \<subseteq> {Ev_lstat (outfile_path fctx pkg), Downloading pkg}
         \<and> (\<forall>p b. Ev_creat p b \<notin> set (new_events w w'))
         \<and> (\<forall>u b. Ev_istream_from_url u b \<notin> set (new_events w w'))
         \<and> (\<forall>a b c. Ev_link a b c \<notin> set (new_events w w'))
         \<and> (\<forall>p. Ev_unlink p \<notin> set (new_events w w'))"
proof -
  from repo_index_found [OF assms(2,3)] assms(2)
  have found: "repo_index e pkg < APK_MAX_REPOS e" by simp
  have sim: "r = 0 \<and> f' = f \<and> evs = [Downloading pkg]"
    if "download_path e fctx db pkg out f r evs f'" for out f evs f'
    using that found assms(1) by (cases rule: download_path.cases) simp_all
  from fetch_package_cases [OF assms(4)]
  consider "r = 0" "w' = emit (Ev_lstat (outfile_path fctx pkg)) w"
    | evs where "trace w' = trace w @ Ev_lstat (outfile_path fctx pkg) # evs"
        "download_path e fctx db pkg (outfile_path fctx pkg) (files w) r evs (files w')"
    | evs where "trace w' = trace w @ evs"
        "download_path e fctx db pkg (uninit_outfile e w) (files w) r evs (files w')"
    by blast
  then show ?thesis
  proof cases
    case 1
    then show ?thesis
      by (simp add: new_events_emit files_emit event_defs)
  next
    case 2
    with sim [OF 2(2)] show ?thesis
      by (simp add: new_events_def event_defs)
  next
    case 3
    with sim [OF 3(2)] show ?thesis
      by (simp add: new_events_def event_defs)
  qed
qed

lemma ex_outfile_link: "outfile_path ex_fctx_link ex_pkg = ''./a-1.apk''"
  by (simp add: outfile_path_def ex_fctx_link_def ex_pkg_def snprintf_def)

lemma ex_infile: "infile_path ex_db ex_pkg 0 = ''/repo/a-1.apk''"
  by (simp add: infile_path_def ex_db_def ex_pkg_def snprintf_def)

theorem simulate_changes_nothing_witness:
  "apk_simulate ex_env_sim \<and> 0 < APK_MAX_REPOS ex_env_sim \<and> pkg_repos ex_pkg AND BIT 0 \<noteq> 0
   \<and> fst (fetch_package ex_env_sim ex_fctx ex_db ex_pkg ex_world) = 0
   \<and> files (snd (fetch_package ex_env_sim ex_fctx ex_db ex_pkg ex_world)) = files ex_world"
proof -
  have h1: "apk_simulate ex_env_sim"
    by (simp add: ex_env_sim_def)
  have h2: "0 < APK_MAX_REPOS ex_env_sim"
    by (simp add: ex_env_sim_def ex_env_def)
  have h3: "pkg_repos ex_pkg AND BIT 0 \<noteq> 0"
    by (simp add: ex_pkg_def BIT_def)
  from simulate_changes_nothing [OF h1 h2 h3 surjective_pairing]
  show ?thesis
    using h1 h2 h3 by simp
qed

subsection \<open>The hard link\<close>

lemma download_path_linked:
  assumes "download_path e fctx db pkg out f r evs f'"
    and "Ev_link src dst True \<in> set evs"
  shows "r = 0 \<and> flags fctx AND FETCH_STDOUT = 0 \<and> flags fctx AND FETCH_LINK \<noteq> 0
         \<and> apk_url_local_file e (infile_path db pkg (repo_index e pkg)) \<and> dst = out
         \<and> evs = [Downloading pkg, Ev_readlink (infile_path db pkg (repo_index e pkg)),
                   Ev_link src out True]
         \<and> (\<forall>t. f (infile_path db pkg (repo_index e pkg)) = Some (Symlink t)
                  \<and> 0 < length t \<and> length t < 256 \<longrightarrow> src = t)
         \<and> f' = f(out := f src)"
  using assms
  by (cases rule: download_path.cases)
     (auto simp: link_events_def event_defs split: option.splits)

text \<open>
  C8. When the \<^verbatim>\<open>link\<close> call of line 100 succeeds, \<^verbatim>\<open>fetch_package\<close> returns 0 at once.
  The call is made only in file mode, with \<^verbatim>\<open>FETCH_LINK\<close> set and a local source; it links
  the output path to the target of the symbolic link at the source path (when
  \<^verbatim>\<open>readlink\<close> gave one that fits the buffer). The whole run consists of the \<^verbatim>\<open>lstat\<close>, the
  progress message, the \<^verbatim>\<open>readlink\<close> and the \<^verbatim>\<open>link\<close>: no file is created, no stream is
  opened and nothing is spliced.
\<close>

theorem hard_link_skips_streaming:
  assumes "fetch_package e fctx db pkg w = (r, w')"
    and "Ev_link src dst True \<in> set (new_events w w')"
  shows "r = 0 \<and> flags fctx AND FETCH_LINK \<noteq> 0
         \<and> apk_url_local_file e (infile_path db pkg (repo_index e pkg))
         \<and> dst = outfile_path fctx pkg
         \<and> (\<forall>t. files w (infile_path db pkg (repo_index e pkg)) = Some (Symlink t)
                  \<and> 0 < length t \<and> length t < 256 \<longrightarrow> src = t)
         \<and> new_events w w' =
              [Ev_lstat (outfile_path fctx pkg), Downloading pkg,
               Ev_readlink (infile_path db pkg (repo_index e pkg)),
               Ev_link src (outfile_path fctx pkg) True]
         \<and> (\<forall>p b. Ev_creat p b \<notin> set (new_events w w'))
         \<and> (\<forall>u b. Ev_istream_from_url u b \<notin> set (new_events w w'))
         \<and> (\<forall>u d n g. Ev_splice u d n g \<notin> set (new_events w w'))"
proof -
  from fetch_package_cases [OF assms(1)]
  consider "w' = emit (Ev_lstat (outfile_path fctx pkg)) w"
    | evs where "trace w' = trace w @ Ev_lstat (outfile_path fctx pkg) # evs"
        "download_path e fctx db pkg (outfile_path fctx pkg) (files w) r evs (files w')"
    | evs where "flags fctx AND FETCH_STDOUT \<noteq> 0" "trace w' = trace w @ evs"
        "download_path e fctx db pkg (uninit_outfile e w) (files w) r evs (files w')"
    by blast
  then show ?thesis
  proof cases
    case 1
    with assms(2) show ?thesis by (simp add: new_events_emit)
  next
    case 2
    then have ne: "new_events w w' = Ev_lstat (outfile_path fctx pkg) # evs"
      by (simp add: new_events_def)
    with assms(2) have "Ev_link src dst True \<in> set evs" by simp
    from download_path_linked [OF 2(2) this] ne show ?thesis
      by (simp add: event_defs)
  next
    case 3
    then have "new_events w w' = evs"
      by (simp add: new_events_def)
    with assms(2) have "Ev_link src dst True \<in> set evs" by simp
    from download_path_linked [OF 3(3) this] 3(1) show ?thesis
      by simp
  qed
qed

lemma ex_link_run:
  "fetch_package ex_env_short ex_fctx_link ex_db ex_pkg ex_world_repo = (0, ex_world_linked)"
  by (simp add: fetch_defs ex_env_short_def ex_defs ex_fctx_link_def ex_world_repo_def
      ex_world_linked_def find_repo_first BIT_def fun_upd_twist)

lemma ex_world_repo_trace: "trace ex_world_repo = []"
  by (simp add: ex_world_repo_def)

theorem hard_link_skips_streaming_witness:
  "Ev_link ''/pool/a.apk'' ''./a-1.apk'' True
     \<in> set (new_events ex_world_repo
              (snd (fetch_package ex_env_short ex_fctx_link ex_db ex_pkg ex_world_repo)))
   \<and> fst (fetch_package ex_env_short ex_fctx_link ex_db ex_pkg ex_world_repo) = 0
   \<and> new_events ex_world_repo
        (snd (fetch_package ex_env_short ex_fctx_link ex_db ex_pkg ex_world_repo)) =
      [Ev_lstat ''./a-1.apk'', Downloading ex_pkg, Ev_readlink ''/repo/a-1.apk'',
       Ev_link ''/pool/a.apk'' ''./a-1.apk'' True]"
proof -
  have h: "Ev_link ''/pool/a.apk'' ''./a-1.apk'' True
     \<in> set (new_events ex_world_repo
              (snd (fetch_package ex_env_short ex_fctx_link ex_db ex_pkg ex_world_repo)))"
    by (simp add: ex_link_run new_events_def ex_world_linked_def ex_world_repo_trace)
  have i: "repo_index ex_env_short ex_pkg = 0"
    by (simp add: find_repo_first ex_env_short_def ex_env_def ex_pkg_def BIT_def)
  from hard_link_skips_streaming [OF surjective_pairing h]
  show ?thesis
    using h by (simp add: ex_outfile_link ex_infile i)
qed

subsection \<open>A stream that cannot be opened\<close>

text \<open>
  C2. The claim is that every failing fetch to a file removes the file it has created. It
  does not hold on the path of lines 111-114: with the output path free, \<^verbatim>\<open>creat\<close>
  succeeding and \<^verbatim>\<open>apk_istream_from_url\<close> returning \<^verbatim>\<open>NULL\<close>, \<^verbatim>\<open>fetch_package\<close> returns \<open>-1\<close>
  right after the error message. It calls neither \<^verbatim>\<open>close\<close> nor \<^verbatim>\<open>unlink\<close>, and the empty
  file that \<^verbatim>\<open>creat\<close> made stays at the output path.
\<close>

theorem stream_open_failure_leaves_empty_file:
  "fst (fetch_package ex_env_noopen ex_fctx ex_db ex_pkg ex_world) = -1
   \<and> files ex_world ''./a-1.apk'' = None
   \<and> files (snd (fetch_package ex_env_noopen ex_fctx ex_db ex_pkg ex_world)) ''./a-1.apk''
       = Some (Reg 0)
   \<and> trace (snd (fetch_package ex_env_noopen ex_fctx ex_db ex_pkg ex_world))
       = [Ev_lstat ''./a-1.apk'', Downloading ex_pkg, Ev_creat ''./a-1.apk'' True,
          Ev_istream_from_url ''/repo/a-1.apk'' False, Unable_to_download ''/repo/a-1.apk'']"
  by (simp add: ex_noopen_run) (simp add: ex_world_def)

subsection \<open>Fetching twice\<close>







subsection \<open>The choice of the repository\<close>

lemma repo_index_least:
  assumes "i < APK_MAX_REPOS e" and "pkg_repos pkg AND BIT i \<noteq> 0"
    and "\<forall>j<i. pkg_repos pkg AND BIT j = 0"
  shows "repo_index e pkg = i"
proof -
  from repo_index_found [OF assms(1,2)] have le: "repo_index e pkg \<le> i" .
  with assms(1) have "repo_index e pkg < APK_MAX_REPOS e" by simp
  from find_repo_hit [OF this] have "pkg_repos pkg AND BIT (repo_index e pkg) \<noteq> 0" .
  with assms(3) have "\<not> repo_index e pkg < i" by blast
  with le show ?thesis by simp
qed

lemma download_path_url:
  assumes "download_path e fctx db pkg out f r evs f'"
    and "Ev_istream_from_url u b \<in> set evs"
  shows "u = infile_path db pkg (repo_index e pkg)"
  using assms
  by (cases rule: download_path.cases)
     (auto simp: link_events_def event_defs split: option.splits)

lemma download_path_no_repository:
  assumes "download_path e fctx db pkg out f r evs f'"
    and "\<forall>i<APK_MAX_REPOS e. pkg_repos pkg AND BIT i = 0"
  shows "r = -1 \<and> f' = f \<and> evs = [Downloading pkg, Not_present pkg]"
proof -
  from find_repo_none [OF _ assms(2)] have "repo_index e pkg = APK_MAX_REPOS e" by simp
  with assms(1) show ?thesis
    by (cases rule: download_path.cases) simp_all
qed

text \<open>
  C4, as stated, says that \<^verbatim>\<open>fetch_package\<close> fails for every package that is in no
  repository. It does not when the file is there already: the check of lines 63-72 returns
  0 before the repository loop is reached.
\<close>

theorem no_repository_but_present_counterexample:
  "pkg_repos ex_pkg_norepo = 0
   \<and> fst (fetch_package ex_env ex_fctx ex_db ex_pkg_norepo ex_world_present) = 0
   \<and> new_events ex_world_present
        (snd (fetch_package ex_env ex_fctx ex_db ex_pkg_norepo ex_world_present))
      = [Ev_lstat ''./a-1.apk'']"
proof -
  have "flags ex_fctx AND FETCH_STDOUT = 0"
    by (simp add: ex_fctx_def)
  moreover have "map_option st_size (files ex_world_present (outfile_path ex_fctx ex_pkg_norepo))
      = Some (pkg_size ex_pkg_norepo)"
    by (simp add: ex_outfile_norepo ex_world_present_def) (simp add: ex_pkg_norepo_def)
  ultimately have "fetch_package ex_env ex_fctx ex_db ex_pkg_norepo ex_world_present
      = (0, emit (Ev_lstat (outfile_path ex_fctx ex_pkg_norepo)) ex_world_present)"
    by (rule fetch_package_present)
  then show ?thesis
    by (simp add: new_events_emit ex_outfile_norepo) (simp add: ex_pkg_norepo_def)
qed

text \<open>
  C4, amended. The repository used is the one with the smallest index among the slots
  \<open>0 .. APK_MAX_REPOS - 1\<close> whose bit is set in \<^verbatim>\<open>pkg->repos\<close>: the loop stops at that
  index, and every stream that \<^verbatim>\<open>fetch_package\<close> opens is opened on the path built from
  that repository's URL. When no slot has its bit set and the call is not ended first by the
  check for a file that is there already, \<^verbatim>\<open>fetch_package\<close> returns \<open>-1\<close> after the progress
  message and the error message that names the package; the file map is unchanged and no
  stream is opened.
\<close>

theorem first_repository_is_chosen:
  assumes "fetch_package e fctx db pkg w = (r, w')"
  shows "(\<forall>i. i < APK_MAX_REPOS e \<and> pkg_repos pkg AND BIT i \<noteq> 0
              \<and> (\<forall>j<i. pkg_repos pkg AND BIT j = 0) \<longrightarrow>
            find_repo (APK_MAX_REPOS e) (pkg_repos pkg) 0 = i
            \<and> (\<forall>u b. Ev_istream_from_url u b \<in> set (new_events w w') \<longrightarrow>
                  u = infile_path db pkg i))
       \<and> ((\<forall>i<APK_MAX_REPOS e. pkg_repos pkg AND BIT i = 0)
            \<and> \<not> (flags fctx AND FETCH_STDOUT = 0
                 \<and> map_option st_size (files w (outfile_path fctx pkg)) = Some (pkg_size pkg)) \<longrightarrow>
            r = -1 \<and> files w' = files w
            \<and> new_events w w' =
                 (if flags fctx AND FETCH_STDOUT = 0 then [Ev_lstat (outfile_path fctx pkg)] else [])
                 @ [Downloading pkg, Not_present pkg]
            \<and> (\<forall>u b. Ev_istream_from_url u b \<notin> set (new_events w w')))"
proof -
  have ne: "new_events w w' = Ev_lstat (outfile_path fctx pkg) # evs"
    if "trace w' = trace w @ Ev_lstat (outfile_path fctx pkg) # evs" for evs
    using that by (simp add: new_events_def)
  have ne': "new_events w w' = evs" if "trace w' = trace w @ evs" for evs
    using that by (simp add: new_events_def)
  from fetch_package_cases [OF assms]
  consider (present) "flags fctx AND FETCH_STDOUT = 0"
      "map_option st_size (files w (outfile_path fctx pkg)) = Some (pkg_size pkg)"
      "new_events w w' = [Ev_lstat (outfile_path fctx pkg)]"
    | (download) out evs where "download_path e fctx db pkg out (files w) r evs (files w')"
      "new_events w w' =
         (if flags fctx AND FETCH_STDOUT = 0 then [Ev_lstat (outfile_path fctx pkg)] else []) @ evs"
  proof (elim disjE exE conjE)
    assume "flags fctx AND FETCH_STDOUT = 0"
      "map_option st_size (files w (outfile_path fctx pkg)) = Some (pkg_size pkg)"
      "w' = emit (Ev_lstat (outfile_path fctx pkg)) w"
    then show thesis
      by (intro present) (simp_all add: new_events_emit del: map_option_eq_Some)
  next
    fix evs
    assume "flags fctx AND FETCH_STDOUT = 0"
      "trace w' = trace w @ Ev_lstat (outfile_path fctx pkg) # evs"
      "download_path e fctx db pkg (outfile_path fctx pkg) (files w) r evs (files w')"
    then show thesis
      using ne [of evs] by (intro download [of "outfile_path fctx pkg" evs]) simp_all
  next
    fix evs
    assume "flags fctx AND FETCH_STDOUT \<noteq> 0" "trace w' = trace w @ evs"
      "download_path e fctx db pkg (uninit_outfile e w) (files w) r evs (files w')"
    then show thesis
      using ne' [of evs] by (intro download [of "uninit_outfile e w" evs]) simp_all
  qed
  then show ?thesis
  proof cases
    case present
    then show ?thesis
      by (simp add: repo_index_least del: map_option_eq_Some)
  next
    case download
    have "u = infile_path db pkg (repo_index e pkg)"
      if "Ev_istream_from_url u b \<in> set (new_events w w')" for u b
      using that download_path_url [OF download(1), of u b] download(2)
      by (simp split: if_splits)
    moreover have "r = -1 \<and> files w' = files w \<and> evs = [Downloading pkg, Not_present pkg]"
      if "\<forall>i<APK_MAX_REPOS e. pkg_repos pkg AND BIT i = 0"
      using download_path_no_repository [OF download(1) that] .
    ultimately show ?thesis
      using download(2) by (auto simp: repo_index_least event_defs)
  qed
qed

theorem first_repository_is_chosen_witness:
  "find_repo (APK_MAX_REPOS ex_env) (pkg_repos ex_pkg) 0 = 0
   \<and> fst (fetch_package ex_env ex_fctx ex_db ex_pkg_norepo ex_world) = -1
   \<and> new_events ex_world (snd (fetch_package ex_env ex_fctx ex_db ex_pkg_norepo ex_world))
      = [Ev_lstat ''./a-1.apk'', Downloading ex_pkg_norepo, Not_present ex_pkg_norepo]"
proof -
  have a1: "0 < APK_MAX_REPOS ex_env \<and> pkg_repos ex_pkg AND BIT 0 \<noteq> 0
     \<and> (\<forall>j<0. pkg_repos ex_pkg AND BIT j = 0)"
    by (simp add: ex_env_def ex_pkg_def BIT_def)
  have b1: "\<forall>i<APK_MAX_REPOS ex_env. pkg_repos ex_pkg_norepo AND BIT i = 0"
    by (simp add: ex_pkg_norepo_def)
  have b2: "\<not> (flags ex_fctx AND FETCH_STDOUT = 0
      \<and> map_option st_size (files ex_world (outfile_path ex_fctx ex_pkg_norepo))
          = Some (pkg_size ex_pkg_norepo))"
    by (simp add: ex_world_def)
  have f: "flags ex_fctx AND FETCH_STDOUT = 0"
    by (simp add: ex_fctx_def)
  from first_repository_is_chosen
    [of ex_env ex_fctx ex_db ex_pkg ex_world, OF surjective_pairing] a1
  have one: "find_repo (APK_MAX_REPOS ex_env) (pkg_repos ex_pkg) 0 = 0"
    by blast
  from first_repository_is_chosen
    [of ex_env ex_fctx ex_db ex_pkg_norepo ex_world, OF surjective_pairing] b1 b2
  have "fst (fetch_package ex_env ex_fctx ex_db ex_pkg_norepo ex_world) = -1
    \<and> new_events ex_world (snd (fetch_package ex_env ex_fctx ex_db ex_pkg_norepo ex_world)) =
        (if flags ex_fctx AND FETCH_STDOUT = 0
         then [Ev_lstat (outfile_path ex_fctx ex_pkg_norepo)] else [])
        @ [Downloading ex_pkg_norepo, Not_present ex_pkg_norepo]"
    by blast
  with one f show ?thesis
    by (simp add: ex_outfile_norepo)
qed

subsection \<open>The choice among the variants of a name\<close>

lemma select_pkg_from:
  fixes key :: "apk_package \<Rightarrow> 'k::linorder"
  assumes key: "\<And>a b. (cmp a b = APK_VERSION_GREATER) = (key b < key a)"
  shows "\<exists>q. select_pkg cmp xs (Some p) = Some q
           \<and> ((q = p \<and> (\<forall>x\<in>set xs. key x \<le> key p))
              \<or> (\<exists>ys zs. xs = ys @ q # zs \<and> key p < key q
                    \<and> (\<forall>y\<in>set ys. key y < key q) \<and> (\<forall>z\<in>set zs. key z \<le> key q)))"
proof (induction xs arbitrary: p)
  case Nil
  then show ?case by simp
next
  case (Cons x xs)
  show ?case
  proof (cases "key p < key x")
    case True
    then have step: "select_pkg cmp (x # xs) (Some p) = select_pkg cmp xs (Some x)"
      by (simp add: key)
    from Cons.IH [of x] obtain q where q: "select_pkg cmp xs (Some x) = Some q"
      and alt: "(q = x \<and> (\<forall>y\<in>set xs. key y \<le> key x))
              \<or> (\<exists>ys zs. xs = ys @ q # zs \<and> key x < key q
                    \<and> (\<forall>y\<in>set ys. key y < key q) \<and> (\<forall>z\<in>set zs. key z \<le> key q))"
      by blast
    from alt show ?thesis
    proof
      assume "q = x \<and> (\<forall>y\<in>set xs. key y \<le> key x)"
      with True have "x # xs = [] @ q # xs \<and> key p < key q
          \<and> (\<forall>y\<in>set []. key y < key q) \<and> (\<forall>z\<in>set xs. key z \<le> key q)"
        by simp
      with q step show ?thesis by metis
    next
      assume "\<exists>ys zs. xs = ys @ q # zs \<and> key x < key q
                    \<and> (\<forall>y\<in>set ys. key y < key q) \<and> (\<forall>z\<in>set zs. key z \<le> key q)"
      then obtain ys zs where "xs = ys @ q # zs" "key x < key q"
        "\<forall>y\<in>set ys. key y < key q" "\<forall>z\<in>set zs. key z \<le> key q"
        by blast
      with True have "x # xs = (x # ys) @ q # zs \<and> key p < key q
          \<and> (\<forall>y\<in>set (x # ys). key y < key q) \<and> (\<forall>z\<in>set zs. key z \<le> key q)"
        by auto
      with q step show ?thesis by metis
    qed
  next
    case False
    then have step: "select_pkg cmp (x # xs) (Some p) = select_pkg cmp xs (Some p)"
      by (simp add: key)
    from Cons.IH [of p] obtain q where q: "select_pkg cmp xs (Some p) = Some q"
      and alt: "(q = p \<and> (\<forall>y\<in>set xs. key y \<le> key p))
              \<or> (\<exists>ys zs. xs = ys @ q # zs \<and> key p < key q
                    \<and> (\<forall>y\<in>set ys. key y < key q) \<and> (\<forall>z\<in>set zs. key z \<le> key q))"
      by blast
    from alt show ?thesis
    proof
      assume "q = p \<and> (\<forall>y\<in>set xs. key y \<le> key p)"
      with False have "q = p \<and> (\<forall>y\<in>set (x # xs). key y \<le> key p)"
        by auto
      with q step show ?thesis by metis
    next
      assume "\<exists>ys zs. xs = ys @ q # zs \<and> key p < key q
                    \<and> (\<forall>y\<in>set ys. key y < key q) \<and> (\<forall>z\<in>set zs. key z \<le> key q)"
      then obtain ys zs where "xs = ys @ q # zs" "key p < key q"
        "\<forall>y\<in>set ys. key y < key q" "\<forall>z\<in>set zs. key z \<le> key q"
        by blast
      with False have "x # xs = (x # ys) @ q # zs \<and> key p < key q
          \<and> (\<forall>y\<in>set (x # ys). key y < key q) \<and> (\<forall>z\<in>set zs. key z \<le> key q)"
        by auto
      with q step show ?thesis by metis
    qed
  qed
qed

lemma select_pkg_first_greatest:
  fixes key :: "apk_package \<Rightarrow> 'k::linorder"
  assumes key: "\<And>a b. (cmp a b = APK_VERSION_GREATER) = (key b < key a)"
    and "items \<noteq> []"
  shows "\<exists>k<length items. select_pkg cmp items None = Some (items ! k)
           \<and> (\<forall>j<length items. key (items ! j) \<le> key (items ! k))
           \<and> (\<forall>j<k. key (items ! j) < key (items ! k))"
proof -
  from assms(2) obtain x xs where items: "items = x # xs"
    by (cases items) auto
  then have start: "select_pkg cmp items None = select_pkg cmp xs (Some x)"
    by simp
  from select_pkg_from [of cmp key xs x, OF key]
  obtain q where q: "select_pkg cmp xs (Some x) = Some q"
    and alt: "(q = x \<and> (\<forall>y\<in>set xs. key y \<le> key x))
              \<or> (\<exists>ys zs. xs = ys @ q # zs \<and> key x < key q
                    \<and> (\<forall>y\<in>set ys. key y < key q) \<and> (\<forall>z\<in>set zs. key z \<le> key q))"
    by blast
  from alt show ?thesis
  proof
    assume a: "q = x \<and> (\<forall>y\<in>set xs. key y \<le> key x)"
    have "\<forall>j<length items. key (items ! j) \<le> key x"
    proof (intro allI impI)
      fix j assume "j < length items"
      then have "items ! j \<in> set items" by simp
      with a items show "key (items ! j) \<le> key x" by auto
    qed
    with a q start items have "0 < length items \<and> select_pkg cmp items None = Some (items ! 0)
           \<and> (\<forall>j<length items. key (items ! j) \<le> key (items ! 0))
           \<and> (\<forall>j<0. key (items ! j) < key (items ! 0))"
      by simp
    then show ?thesis by blast
  next
    assume "\<exists>ys zs. xs = ys @ q # zs \<and> key x < key q
                    \<and> (\<forall>y\<in>set ys. key y < key q) \<and> (\<forall>z\<in>set zs. key z \<le> key q)"
    then obtain ys zs where xs: "xs = ys @ q # zs" and xq: "key x < key q"
      and before: "\<forall>y\<in>set ys. key y < key q" and after: "\<forall>z\<in>set zs. key z \<le> key q"
      by blast
    let ?k = "length (x # ys)"
    from items xs have dec: "items = (x # ys) @ q # zs" by simp
    then have at: "items ! ?k = q"
      by (simp only: nth_append_length)
    have all: "\<forall>j<length items. key (items ! j) \<le> key q"
    proof (intro allI impI)
      fix j assume "j < length items"
      then have "items ! j \<in> set items" by simp
      with dec xq before after show "key (items ! j) \<le> key q" by auto
    qed
    have earlier: "\<forall>j<?k. key (items ! j) < key q"
    proof (intro allI impI)
      fix j assume j: "j < ?k"
      with dec have "items ! j = (x # ys) ! j"
        by (simp only: nth_append if_True)
      moreover from j have "(x # ys) ! j \<in> set (x # ys)"
        by (simp only: nth_mem)
      ultimately show "key (items ! j) < key q"
        using xq before by auto
    qed
    from dec have "?k < length items" by simp
    with at all earlier q start show ?thesis by metis
  qed
qed

text \<open>
  C5. Without \<^verbatim>\<open>FETCH_RECURSIVE\<close>, for a name whose array of variants is not empty, and a
  version comparison that orders the packages (it answers \<^verbatim>\<open>APK_VERSION_GREATER\<close> exactly
  when its first argument stands strictly higher on some linear scale), \<^verbatim>\<open>fetch_main\<close>
  calls \<^verbatim>\<open>fetch_package\<close> on one variant, \<open>items ! k\<close>, and on no other: no variant compares
  greater than it, and it compares greater than every variant before it in the array. So
  the current choice is replaced only by a candidate that is strictly greater, and among
  equals the one with the smallest index is fetched.
\<close>

theorem greatest_variant_is_fetched:
  fixes key :: "apk_package \<Rightarrow> 'k::linorder"
  assumes "flags fctx AND FETCH_RECURSIVE = 0"
    and "pkgs (db_names db arg) = Some items" and "items \<noteq> []"
    and "\<And>a b. (apk_pkg_version_compare e a b = APK_VERSION_GREATER) = (key b < key a)"
  shows "\<exists>k<length items.
           (\<forall>j<length items.
               apk_pkg_version_compare e (items ! j) (items ! k) \<noteq> APK_VERSION_GREATER)
         \<and> (\<forall>j<k. apk_pkg_version_compare e (items ! k) (items ! j) = APK_VERSION_GREATER)
         \<and> select_pkg (apk_pkg_version_compare e) items None = Some (items ! k)
         \<and> fetch_arg e fctx db arg w =
             (case fetch_package e fctx db (items ! k) (emit (Ev_db_get_name arg) w) of
                (r, w1) \<Rightarrow> if r \<noteq> 0 then (Leave r, w1) else (Next, w1))"
proof -
  from select_pkg_first_greatest [of "apk_pkg_version_compare e" key items, OF assms(4,3)]
  obtain k where k: "k < length items"
    and sel: "select_pkg (apk_pkg_version_compare e) items None = Some (items ! k)"
    and all: "\<forall>j<length items. key (items ! j) \<le> key (items ! k)"
    and earlier: "\<forall>j<k. key (items ! j) < key (items ! k)"
    by blast
  from all have "\<forall>j<length items.
      apk_pkg_version_compare e (items ! j) (items ! k) \<noteq> APK_VERSION_GREATER"
    by (simp add: assms(4) not_less)
  moreover from earlier
  have "\<forall>j<k. apk_pkg_version_compare e (items ! k) (items ! j) = APK_VERSION_GREATER"
    by (simp add: assms(4))
  moreover from assms(1,2) sel
  have "fetch_arg e fctx db arg w =
      (case fetch_package e fctx db (items ! k) (emit (Ev_db_get_name arg) w) of
         (r, w1) \<Rightarrow> if r \<noteq> 0 then (Leave r, w1) else (Next, w1))"
    by (simp add: fetch_arg_def Let_def)
  ultimately show ?thesis
    using k sel by blast
qed

lemma ex_version_keys:
  "version_key ''1.0'' < version_key ''1.1''" "version_key ''1.1'' < version_key ''1.2''"
  by (simp_all add: version_key_def)

lemma ex_select: "select_pkg (apk_pkg_version_compare ex_env_versions) ex_variants None
    = Some (ex_variants ! Suc 0)"
  using ex_version_keys by (simp add: ex_env_versions_def ex_env_def ex_variants_def)

lemma ex_variants_run:
  "fetch_package ex_env_versions ex_fctx ex_db_variants (ex_variants ! Suc 0)
     (emit (Ev_db_get_name ''a'') ex_world) =
   (0, \<lparr>files = [''./a-1.2.apk'' \<mapsto> Reg 5],
        links = [],
        trace = [Ev_db_get_name ''a'', Ev_lstat ''./a-1.2.apk'', Downloading (ex_variants ! Suc 0),
                 Ev_creat ''./a-1.2.apk'' True, Ev_istream_from_url ''/repo/a-1.2.apk'' True,
                 Ev_splice ''/repo/a-1.2.apk'' (Fd ''./a-1.2.apk'') 5 5,
                 Ev_istream_close ''/repo/a-1.2.apk'', Ev_close (Fd ''./a-1.2.apk'')]\<rparr>)"
  by (simp add: fetch_defs ex_env_versions_def ex_defs ex_db_variants_def ex_variants_def
      find_repo_first BIT_def follow_plain)

theorem greatest_variant_is_fetched_witness:
  "flags ex_fctx AND FETCH_RECURSIVE = 0
   \<and> pkgs (db_names ex_db_variants ''a'') = Some ex_variants
   \<and> map version ex_variants = [''1.0'', ''1.2'', ''1.1'']
   \<and> fst (fetch_arg ex_env_versions ex_fctx ex_db_variants ''a'' ex_world) = Next
   \<and> Ev_istream_from_url ''/repo/a-1.2.apk'' True
        \<in> set (trace (snd (fetch_arg ex_env_versions ex_fctx ex_db_variants ''a'' ex_world)))"
proof -
  have h1: "flags ex_fctx AND FETCH_RECURSIVE = 0"
    by (simp add: ex_fctx_def)
  have h2: "pkgs (db_names ex_db_variants ''a'') = Some ex_variants"
    by (simp add: ex_db_variants_def)
  have h3: "ex_variants \<noteq> []"
    by (simp add: ex_variants_def)
  have h4: "(apk_pkg_version_compare ex_env_versions a b = APK_VERSION_GREATER)
      = (version_key (version b) < version_key (version a))" for a b
    by (simp add: ex_env_versions_def ex_env_def)
  have vs: "map version ex_variants = [''1.0'', ''1.2'', ''1.1'']"
    by (simp add: ex_variants_def)
  from greatest_variant_is_fetched
    [of ex_fctx ex_db_variants "''a''" ex_variants ex_env_versions
        "\<lambda>p. version_key (version p)" ex_world, OF h1 h2 h3 h4]
  obtain k where
    "select_pkg (apk_pkg_version_compare ex_env_versions) ex_variants None
       = Some (ex_variants ! k)"
    and "fetch_arg ex_env_versions ex_fctx ex_db_variants ''a'' ex_world =
       (case fetch_package ex_env_versions ex_fctx ex_db_variants (ex_variants ! k)
               (emit (Ev_db_get_name ''a'') ex_world) of
          (r, w1) \<Rightarrow> if r \<noteq> 0 then (Leave r, w1) else (Next, w1))"
    by blast
  with ex_select have "fetch_arg ex_env_versions ex_fctx ex_db_variants ''a'' ex_world =
       (case fetch_package ex_env_versions ex_fctx ex_db_variants (ex_variants ! Suc 0)
               (emit (Ev_db_get_name ''a'') ex_world) of
          (r, w1) \<Rightarrow> if r \<noteq> 0 then (Leave r, w1) else (Next, w1))"
    by simp
  then have "fst (fetch_arg ex_env_versions ex_fctx ex_db_variants ''a'' ex_world) = Next
    \<and> Ev_istream_from_url ''/repo/a-1.2.apk'' True
        \<in> set (trace (snd (fetch_arg ex_env_versions ex_fctx ex_db_variants ''a'' ex_world)))"
    by (simp add: ex_variants_run)
  with h1 h2 vs show ?thesis by simp
qed

subsection \<open>The recursive branch\<close>

lemma fetch_changes_run:
  assumes "fetch_changes e fctx db ps w = (r, w')"
  shows "\<exists>k\<le>length ps.
           w' = foldl (after_fetch e fctx db) w (take k ps)
         \<and> (\<forall>j<k. fst (fetch_package e fctx db (ps ! j)
                        (foldl (after_fetch e fctx db) w (take j ps)))
                   = (if Suc j = k then r else 0))
         \<and> (r = 0 \<longrightarrow> k = length ps) \<and> (r \<noteq> 0 \<longrightarrow> 0 < k)"
  using assms
proof (induction ps arbitrary: w)
  case Nil
  then show ?case by simp
next
  case (Cons p ps)
  obtain r1 w1 where first: "fetch_package e fctx db p w = (r1, w1)"
    by (cases "fetch_package e fctx db p w")
  show ?case
  proof (cases "r1 = 0")
    case False
    with Cons.prems first have "r = r1" "w' = w1" by simp_all
    with False first have "Suc 0 \<le> length (p # ps)
         \<and> w' = foldl (after_fetch e fctx db) w (take (Suc 0) (p # ps))
         \<and> (\<forall>j<Suc 0. fst (fetch_package e fctx db ((p # ps) ! j)
                        (foldl (after_fetch e fctx db) w (take j (p # ps))))
                   = (if Suc j = Suc 0 then r else 0))
         \<and> (r = 0 \<longrightarrow> Suc 0 = length (p # ps)) \<and> (r \<noteq> 0 \<longrightarrow> 0 < Suc 0)"
      by (simp add: after_fetch_def)
    then show ?thesis by blast
  next
    case True
    with Cons.prems first have "fetch_changes e fctx db ps w1 = (r, w')" by simp
    from Cons.IH [OF this] obtain k where k: "k \<le> length ps"
      and w': "w' = foldl (after_fetch e fctx db) w1 (take k ps)"
      and each: "\<forall>j<k. fst (fetch_package e fctx db (ps ! j)
                        (foldl (after_fetch e fctx db) w1 (take j ps)))
                   = (if Suc j = k then r else 0)"
      and ends: "r = 0 \<longrightarrow> k = length ps" "r \<noteq> 0 \<longrightarrow> 0 < k"
      by blast
    have w1: "after_fetch e fctx db w p = w1"
      using first by (simp add: after_fetch_def)
    have "fst (fetch_package e fctx db ((p # ps) ! j)
                        (foldl (after_fetch e fctx db) w (take j (p # ps))))
                   = (if Suc j = Suc k then r else 0)" if "j < Suc k" for j
    proof (cases j)
      case 0
      with first True ends show ?thesis by auto
    next
      case (Suc i)
      with that each show ?thesis by (simp add: w1)
    qed
    with k w' ends have "Suc k \<le> length (p # ps)
         \<and> w' = foldl (after_fetch e fctx db) w (take (Suc k) (p # ps))
         \<and> (\<forall>j<Suc k. fst (fetch_package e fctx db ((p # ps) ! j)
                        (foldl (after_fetch e fctx db) w (take j (p # ps))))
                   = (if Suc j = Suc k then r else 0))
         \<and> (r = 0 \<longrightarrow> Suc k = length (p # ps)) \<and> (r \<noteq> 0 \<longrightarrow> 0 < Suc k)"
      by (simp add: w1)
    then show ?thesis by blast
  qed
qed

text \<open>
  C6. With \<^verbatim>\<open>FETCH_RECURSIVE\<close>, when the solver has locked the argument and answered with
  the list \<open>ps\<close>, \<^verbatim>\<open>fetch_package\<close> is run on the packages of \<open>ps\<close> one after the other, from
  the first on, each in the world that the one before has left. Either every one of them
  returns 0; then the solver state is released and the loop goes on with the next
  argument. Or there is a first package \<open>ps ! k\<close> that returns something else; then the
  loop over the arguments is left with that value, in the world as that call has left it:
  no call at all is made for a later package of the list or for a later argument, and a
  \<^verbatim>\<open>fetch_main\<close> that has this argument as its first one closes the database and returns
  that value.
\<close>

theorem recursive_fetch_in_order:
  assumes "flags fctx AND FETCH_RECURSIVE \<noteq> 0"
    and "apk_state_lock_dependency e (emit Ev_state_new (emit (Ev_db_get_name a) w)) db
           (db_names db a) = (0, ps)"
  defines "w0 \<equiv> emit (Ev_state_lock_dependency (name (db_names db a)) 0)
                  (emit Ev_state_new (emit (Ev_db_get_name a) w))"
  defines "W \<equiv> \<lambda>j. foldl (after_fetch e fctx db) w0 (take j ps)"
  defines "R \<equiv> \<lambda>j. fst (fetch_package e fctx db (ps ! j) (W j))"
  shows "(\<exists>k<length ps. (\<forall>j<k. R j = 0) \<and> R k \<noteq> 0
            \<and> fetch_args e fctx db (a # rest) w = (Leave (R k), W (Suc k))
            \<and> (\<forall>v. apk_db_open e v = (0, db) \<and> w = emit (Ev_db_open 0) v \<longrightarrow>
                  fetch_main e fctx (a # rest) v = (Return (R k), emit Ev_db_close (W (Suc k)))))
       \<or> ((\<forall>j<length ps. R j = 0)
            \<and> fetch_args e fctx db (a # rest) w
                = fetch_args e fctx db rest (emit Ev_state_unref (W (length ps))))"
proof -
  obtain r w' where run: "fetch_changes e fctx db ps w0 = (r, w')"
    by (cases "fetch_changes e fctx db ps w0")
  from assms(1,2) run
  have arg: "fetch_arg e fctx db a w =
      (if r \<noteq> 0 then (Leave r, w') else (Next, emit Ev_state_unref w'))"
    by (simp add: fetch_arg_def Let_def w0_def)
  from fetch_changes_run [OF run] obtain k where k: "k \<le> length ps"
    and w': "w' = W k"
    and each: "\<forall>j<k. R j = (if Suc j = k then r else 0)"
    and ends: "r = 0 \<longrightarrow> k = length ps" "r \<noteq> 0 \<longrightarrow> 0 < k"
    unfolding W_def R_def by blast
  show ?thesis
  proof (cases "r = 0")
    case True
    with ends each have "\<forall>j<length ps. R j = 0" by simp
    moreover from True arg w' ends
    have "fetch_args e fctx db (a # rest) w
        = fetch_args e fctx db rest (emit Ev_state_unref (W (length ps)))"
      by simp
    ultimately show ?thesis by blast
  next
    case False
    with ends obtain i where i: "k = Suc i" by (cases k) auto
    with each have "\<forall>j<i. R j = 0" and "R i = r" by simp_all
    moreover from False arg w' i
    have "fetch_args e fctx db (a # rest) w = (Leave r, W (Suc i))"
      by simp
    moreover from i k have "i < length ps" by simp
    moreover have "fetch_main e fctx (a # rest) v = (Return r, emit Ev_db_close (W (Suc i)))"
      if "apk_db_open e v = (0, db) \<and> w = emit (Ev_db_open 0) v" for v
      using that \<open>fetch_args e fctx db (a # rest) w = (Leave r, W (Suc i))\<close>
      by (simp add: fetch_main_def Let_def)
    ultimately show ?thesis using False by blast
  qed
qed

lemma ex_w0_emit:
  "emit (Ev_state_lock_dependency (name (db_names ex_db ''a'')) 0)
     (emit Ev_state_new (emit (Ev_db_get_name ''a'') (emit (Ev_db_open 0) ex_world))) = ex_w0"
  by (simp add: emit_def ex_world_def ex_w0_def ex_db_def)

lemma ex_abc_first: "fetch_package ex_env_abc ex_fctx_rec ex_db ex_pkg ex_w0 = (0, ex_w1)"
  by (simp add: fetch_defs ex_env_abc_def ex_defs ex_fctx_rec_def ex_w0_def ex_w1_def
      find_repo_first BIT_def follow_plain)

lemma ex_abc_second: "fetch_package ex_env_abc ex_fctx_rec ex_db ex_pkg_b ex_w1 = (-1, ex_w2)"
  by (simp add: fetch_defs ex_env_abc_def ex_defs ex_fctx_rec_def ex_w0_def ex_w1_def ex_w2_def
      ex_pkg_b_def find_repo_none event_defs)

theorem recursive_fetch_in_order_witness:
  "flags ex_fctx_rec AND FETCH_RECURSIVE \<noteq> 0
   \<and> apk_state_lock_dependency ex_env_abc
        (emit Ev_state_new (emit (Ev_db_get_name ''a'') (emit (Ev_db_open 0) ex_world)))
        ex_db (db_names ex_db ''a'') = (0, [ex_pkg, ex_pkg_b, ex_pkg_c])
   \<and> fetch_main ex_env_abc ex_fctx_rec [''a'', ''z''] ex_world
       = (Return (-1), emit Ev_db_close ex_w2)"
proof -
  let ?ps = "[ex_pkg, ex_pkg_b, ex_pkg_c]"
  let ?W = "\<lambda>j. foldl (after_fetch ex_env_abc ex_fctx_rec ex_db) ex_w0 (take j ?ps)"
  let ?R = "\<lambda>j. fst (fetch_package ex_env_abc ex_fctx_rec ex_db (?ps ! j) (?W j))"
  have h1: "flags ex_fctx_rec AND FETCH_RECURSIVE \<noteq> 0"
    by (simp add: ex_fctx_rec_def FETCH_RECURSIVE_def)
  have h2: "apk_state_lock_dependency ex_env_abc
        (emit Ev_state_new (emit (Ev_db_get_name ''a'') (emit (Ev_db_open 0) ex_world)))
        ex_db (db_names ex_db ''a'') = (0, ?ps)"
    by (simp add: ex_env_abc_def ex_env_def)
  have db: "apk_db_open ex_env_abc ex_world = (0, ex_db)"
    by (simp add: ex_env_abc_def ex_env_def)
  have W1: "?W (Suc 0) = ex_w1"
    by (simp add: after_fetch_def ex_abc_first)
  have W2: "?W (Suc (Suc 0)) = ex_w2"
    by (simp add: after_fetch_def ex_abc_first ex_abc_second)
  have R0: "?R 0 = 0"
    by (simp add: ex_abc_first)
  have R1: "?R (Suc 0) = -1"
    by (simp add: after_fetch_def ex_abc_first ex_abc_second)
  from recursive_fetch_in_order [OF h1 h2, of "[''z'']", unfolded ex_w0_emit]
  consider k where "k < length ?ps" "\<forall>j<k. ?R j = 0" "?R k \<noteq> 0"
      "\<forall>v. apk_db_open ex_env_abc v = (0, ex_db)
            \<and> emit (Ev_db_open 0) ex_world = emit (Ev_db_open 0) v \<longrightarrow>
          fetch_main ex_env_abc ex_fctx_rec [''a'', ''z''] v
            = (Return (?R k), emit Ev_db_close (?W (Suc k)))"
    | "\<forall>j<length ?ps. ?R j = 0"
    by blast
  then have "fetch_main ex_env_abc ex_fctx_rec [''a'', ''z''] ex_world
       = (Return (-1), emit Ev_db_close ex_w2)"
  proof cases
    case 1
    from 1(2) R1 have "\<not> Suc 0 < k" by force
    moreover from 1(3) R0 have "k \<noteq> 0" by metis
    ultimately have k: "k = Suc 0" by simp
    from 1(4) db have "fetch_main ex_env_abc ex_fctx_rec [''a'', ''z''] ex_world
            = (Return (?R k), emit Ev_db_close (?W (Suc k)))"
      by blast
    then show ?thesis
      unfolding k W2 R1 .
  next
    case 2
    from 2 [rule_format, of "Suc 0"] R1 show ?thesis by simp
  qed
  with h1 h2 show ?thesis by simp
qed

subsection \<open>The solver state\<close>

text \<open>
  C9. The claim is that the solver state made for an argument is released on every path.
  It is not on the path of lines 160-161. With \<^verbatim>\<open>FETCH_RECURSIVE\<close>, one argument, a solver
  that locks it and answers with one package, and that package in no repository,
  \<^verbatim>\<open>fetch_package\<close> fails and \<^verbatim>\<open>fetch_main\<close> jumps to \<^verbatim>\<open>err\<close>: it closes the database and
  returns \<open>-1\<close>, and \<^verbatim>\<open>apk_state_unref\<close> is never called for the state that
  \<^verbatim>\<open>apk_state_new\<close> made.
\<close>

theorem failed_fetch_leaks_solver_state:
  "fst (fetch_main ex_env_lock_norepo ex_fctx_rec [''a''] ex_world) = Return (-1)
   \<and> trace (snd (fetch_main ex_env_lock_norepo ex_fctx_rec [''a''] ex_world))
       = [Ev_db_open 0, Ev_db_get_name ''a'', Ev_state_new, Ev_state_lock_dependency ''a'' 0,
          Ev_lstat ''./a-1.apk'', Downloading ex_pkg_norepo, Not_present ex_pkg_norepo,
          Ev_db_close]
   \<and> Ev_state_new \<in> set (trace (snd (fetch_main ex_env_lock_norepo ex_fctx_rec [''a''] ex_world)))
   \<and> Ev_state_unref
        \<notin> set (trace (snd (fetch_main ex_env_lock_norepo ex_fctx_rec [''a''] ex_world)))"
proof -
  have "fetch_main ex_env_lock_norepo ex_fctx_rec [''a''] ex_world =
      (Return (-1),
       \<lparr>files = Map.empty,
        links = [],
        trace = [Ev_db_open 0, Ev_db_get_name ''a'', Ev_state_new,
                 Ev_state_lock_dependency ''a'' 0, Ev_lstat ''./a-1.apk'',
                 Downloading ex_pkg_norepo, Not_present ex_pkg_norepo, Ev_db_close]\<rparr>)"
    by (simp add: fetch_main_def fetch_arg_def fetch_defs ex_env_lock_norepo_def ex_defs
        ex_fctx_rec_def ex_pkg_norepo_def find_repo_none)
  then show ?thesis
    by (simp add: event_defs)
qed

end
